theory Spec2Isabelle
  imports Complex_Main "HOL-Library.Word"
begin

unbundle bit_operations_syntax

section \<open>RadioShack 22-812 LCD frames (hardware/common/dmm/rs9lcd.c)\<close>

type_synonym u8 = "8 word"
type_synonym u16 = "16 word"
type_synonym u32 = "32 word"
type_synonym u64 = "64 word"

subsection \<open>Indicator bits, LCD segments, modes\<close>

definition IND1_HZ :: u8 where "IND1_HZ = 0x80"
definition IND1_OHM :: u8 where "IND1_OHM = 0x40"
definition IND1_KILO :: u8 where "IND1_KILO = 0x20"
definition IND1_MEGA :: u8 where "IND1_MEGA = 0x10"
definition IND1_FARAD :: u8 where "IND1_FARAD = 0x08"
definition IND1_AMP :: u8 where "IND1_AMP = 0x04"
definition IND1_VOLT :: u8 where "IND1_VOLT = 0x02"
definition IND1_MILI :: u8 where "IND1_MILI = 0x01"

definition IND2_MICRO :: u8 where "IND2_MICRO = 0x80"
definition IND2_NANO :: u8 where "IND2_NANO = 0x40"
definition IND2_DBM :: u8 where "IND2_DBM = 0x20"
definition IND2_SEC :: u8 where "IND2_SEC = 0x10"
definition IND2_DUTY :: u8 where "IND2_DUTY = 0x08"
definition IND2_HFE :: u8 where "IND2_HFE = 0x04"
definition IND2_REL :: u8 where "IND2_REL = 0x02"
definition IND2_MIN :: u8 where "IND2_MIN = 0x01"

definition INFO_BEEP :: u8 where "INFO_BEEP = 0x80"
definition INFO_DIODE :: u8 where "INFO_DIODE = 0x30"
definition INFO_BAT :: u8 where "INFO_BAT = 0x20"
definition INFO_HOLD :: u8 where "INFO_HOLD = 0x10"
definition INFO_NEG :: u8 where "INFO_NEG = 0x08"
definition INFO_AC :: u8 where "INFO_AC = 0x04"
definition INFO_RS232 :: u8 where "INFO_RS232 = 0x02"
definition INFO_AUTO :: u8 where "INFO_AUTO = 0x01"

definition DIG4_MAX :: u8 where "DIG4_MAX = 0x08"
definition DP_MASK :: u8 where "DP_MASK = 0x08"

definition LCD_0 :: u8 where "LCD_0 = 0xd7"
definition LCD_1 :: u8 where "LCD_1 = 0x50"
definition LCD_2 :: u8 where "LCD_2 = 0xb5"
definition LCD_3 :: u8 where "LCD_3 = 0xf1"
definition LCD_4 :: u8 where "LCD_4 = 0x72"
definition LCD_5 :: u8 where "LCD_5 = 0xe3"
definition LCD_6 :: u8 where "LCD_6 = 0xe7"
definition LCD_7 :: u8 where "LCD_7 = 0x51"
definition LCD_8 :: u8 where "LCD_8 = 0xf7"
definition LCD_9 :: u8 where "LCD_9 = 0xf3"
definition LCD_C :: u8 where "LCD_C = 0x87"
definition LCD_h :: u8 where "LCD_h = 0x66"
definition LCD_H :: u8 where "LCD_H = 0x76"
definition LCD_P :: u8 where "LCD_P = 0x37"

text \<open>The anonymous mode enumeration; 24 (\<open>MODE_EF\<close>) is commented out in the source.\<close>

definition MODE_DC_V :: nat where "MODE_DC_V = 0"
definition MODE_AC_V :: nat where "MODE_AC_V = 1"
definition MODE_DC_UA :: nat where "MODE_DC_UA = 2"
definition MODE_DC_MA :: nat where "MODE_DC_MA = 3"
definition MODE_DC_A :: nat where "MODE_DC_A = 4"
definition MODE_AC_UA :: nat where "MODE_AC_UA = 5"
definition MODE_AC_MA :: nat where "MODE_AC_MA = 6"
definition MODE_AC_A :: nat where "MODE_AC_A = 7"
definition MODE_OHM :: nat where "MODE_OHM = 8"
definition MODE_FARAD :: nat where "MODE_FARAD = 9"
definition MODE_HZ :: nat where "MODE_HZ = 10"
definition MODE_VOLT_HZ :: nat where "MODE_VOLT_HZ = 11"
definition MODE_AMP_HZ :: nat where "MODE_AMP_HZ = 12"
definition MODE_DUTY :: nat where "MODE_DUTY = 13"
definition MODE_VOLT_DUTY :: nat where "MODE_VOLT_DUTY = 14"
definition MODE_AMP_DUTY :: nat where "MODE_AMP_DUTY = 15"
definition MODE_WIDTH :: nat where "MODE_WIDTH = 16"
definition MODE_VOLT_WIDTH :: nat where "MODE_VOLT_WIDTH = 17"
definition MODE_AMP_WIDTH :: nat where "MODE_AMP_WIDTH = 18"
definition MODE_DIODE :: nat where "MODE_DIODE = 19"
definition MODE_CONT :: nat where "MODE_CONT = 20"
definition MODE_HFE :: nat where "MODE_HFE = 21"
definition MODE_LOGIC :: nat where "MODE_LOGIC = 22"
definition MODE_DBM :: nat where "MODE_DBM = 23"
definition MODE_TEMP :: nat where "MODE_TEMP = 25"
definition MODE_INVALID :: nat where "MODE_INVALID = 26"

datatype read_type = READ_ALL | READ_TEMP

text \<open>
  Modelled from the spec: \<open>RS9LCD_PACKET_SIZE\<close> is used by \<open>checksum_valid\<close> but its
  definition is not in the sources at hand; the specification gives 9-byte frames, which is
  also the size of \<open>struct rs9lcd_packet\<close>.
\<close>

definition RS9LCD_PACKET_SIZE :: nat where "RS9LCD_PACKET_SIZE = 9"

subsection \<open>The frame\<close>

record rs9lcd_packet =
  mode :: u8
  indicatrix1 :: u8
  indicatrix2 :: u8
  digit4 :: u8
  digit3 :: u8
  digit2 :: u8
  digit1 :: u8
  info :: u8
  checksum :: u8

text \<open>
  The parser casts the byte buffer to the packed struct (\<open>rs_packet = (void * )buf\<close>) and
  back (\<open>raw = (void * )rs_packet\<close>); both views are kept. The cast reads nine bytes, so
  every statement about \<open>rs_packet_of\<close> is about buffers of nine bytes.
\<close>

definition rs_packet_of :: "u8 list \<Rightarrow> rs9lcd_packet" where
  "rs_packet_of buf =
     \<lparr> mode = buf ! 0, indicatrix1 = buf ! 1, indicatrix2 = buf ! 2,
       digit4 = buf ! 3, digit3 = buf ! 4, digit2 = buf ! 5, digit1 = buf ! 6,
       info = buf ! 7, checksum = buf ! 8 \<rparr>"

definition raw_of :: "rs9lcd_packet \<Rightarrow> u8 list" where
  "raw_of p = [mode p, indicatrix1 p, indicatrix2 p, digit4 p, digit3 p, digit2 p,
               digit1 p, info p, checksum p]"

subsection \<open>Validation\<close>

text \<open>
  \<open>checksum_valid\<close>: an 8-bit accumulator runs over the first
  \<open>RS9LCD_PACKET_SIZE - 1\<close> raw bytes, the constant 57 is added, the checksum byte is
  subtracted, and the result must be zero. All arithmetic is \<open>uint8_t\<close>.
\<close>

definition checksum_valid :: "rs9lcd_packet \<Rightarrow> bool" where
  "checksum_valid rs_packet =
     (let raw = raw_of rs_packet;
          sum = foldl (+) (0 :: u8) (take (RS9LCD_PACKET_SIZE - 1) raw);
          sum = sum + 57;
          sum = sum - checksum rs_packet
      in sum = 0)"

text \<open>\<open>(x & BIT) ? 1 : 0\<close>\<close>

definition tst :: "u8 \<Rightarrow> u8 \<Rightarrow> nat" where
  "tst x b = (if x AND b \<noteq> 0 then 1 else 0)"

definition selection_good :: "rs9lcd_packet \<Rightarrow> bool" where
  "selection_good rs_packet =
     (let count = 0;
          count = count + tst (indicatrix1 rs_packet) IND1_KILO;
          count = count + tst (indicatrix1 rs_packet) IND1_MEGA;
          count = count + tst (indicatrix1 rs_packet) IND1_MILI;
          count = count + tst (indicatrix2 rs_packet) IND2_MICRO;
          count = count + tst (indicatrix2 rs_packet) IND2_NANO
      in if count > 1 then False
         else
          (let count = 0;
               count = count + tst (indicatrix1 rs_packet) IND1_HZ;
               count = count + tst (indicatrix1 rs_packet) IND1_OHM;
               count = count + tst (indicatrix1 rs_packet) IND1_FARAD;
               count = count + tst (indicatrix1 rs_packet) IND1_AMP;
               count = count + tst (indicatrix1 rs_packet) IND1_VOLT;
               count = count + tst (indicatrix2 rs_packet) IND2_DBM;
               count = count + tst (indicatrix2 rs_packet) IND2_SEC;
               count = count + tst (indicatrix2 rs_packet) IND2_DUTY;
               count = count + tst (indicatrix2 rs_packet) IND2_HFE
           in if count > 1 then False else True))"

definition sr_rs9lcd_packet_valid :: "u8 list \<Rightarrow> bool" where
  "sr_rs9lcd_packet_valid buf =
     (let rs_packet = rs_packet_of buf
      in if \<not> (unat (mode rs_packet) < MODE_INVALID) then False
         else if \<not> checksum_valid rs_packet then False
         else if \<not> selection_good rs_packet then False
         else True)"

subsection \<open>Digit decoding\<close>

definition decode_digit :: "u8 \<Rightarrow> u8" where
  "decode_digit raw_digit0 =
     (let raw_digit = raw_digit0 AND NOT DP_MASK
      in if raw_digit = 0x00 \<or> raw_digit = LCD_0 then 0
         else if raw_digit = LCD_1 then 1
         else if raw_digit = LCD_2 then 2
         else if raw_digit = LCD_3 then 3
         else if raw_digit = LCD_4 then 4
         else if raw_digit = LCD_5 then 5
         else if raw_digit = LCD_6 then 6
         else if raw_digit = LCD_7 then 7
         else if raw_digit = LCD_8 then 8
         else if raw_digit = LCD_9 then 9
         else 0xff)"

text \<open>
  A C \<open>double\<close> is modelled as an exact real, with \<open>None\<close> for NaN (which every
  arithmetic operation propagates); rounding is not modelled.
\<close>

type_synonym dbl = "real option"

definition dmul :: "dbl \<Rightarrow> real \<Rightarrow> dbl" where
  "dmul x k = map_option (\<lambda>r. r * k) x"

definition digit_at :: "rs9lcd_packet \<Rightarrow> nat \<Rightarrow> u8" where
  \<comment> \<open>\<open>*(&(rs_packet->digit4) + i)\<close> for \<open>i\<close> in 0..3\<close>
  "digit_at rs_packet i = [digit4 rs_packet, digit3 rs_packet, digit2 rs_packet, digit1 rs_packet] ! i"

text \<open>
  The loop \<open>for (i = 3; i >= end; i--)\<close> of \<open>lcd_to_double\<close>, over the list of the
  indices still to visit; an undecodable digit sets \<open>rawval = NAN\<close> and leaves the loop.
\<close>

fun lcd_loop :: "rs9lcd_packet \<Rightarrow> nat list \<Rightarrow> dbl \<Rightarrow> real \<Rightarrow> bool \<Rightarrow> dbl \<times> real" where
  "lcd_loop rs_packet [] rawval multiplier dp_reached = (rawval, multiplier)"
| "lcd_loop rs_packet (i # rest) rawval multiplier dp_reached =
     (let raw_digit = digit_at rs_packet i;
          digit = decode_digit raw_digit
      in if digit = 0xff then (None, multiplier)
         else
          (let dp_reached = (if i < 3 \<and> raw_digit AND DP_MASK \<noteq> 0 then True else dp_reached);
               multiplier = (if dp_reached then multiplier / 10 else multiplier);
               rawval = map_option (\<lambda>r. r * 10 + real (unat digit)) rawval
           in lcd_loop rs_packet rest rawval multiplier dp_reached))"

text \<open>
  \<open>lcd_to_double\<close>. The local \<open>rawval\<close> is declared without an initialiser and first
  read in \<open>rawval = rawval * 10 + digit\<close>; its indeterminate initial content is the
  argument \<open>rawval0\<close>. The first multiplier test reads \<open>indicatrix1\<close> against
  \<open>IND2_NANO\<close>, as the source does.
\<close>

definition lcd_to_double :: "dbl \<Rightarrow> rs9lcd_packet \<Rightarrow> read_type \<Rightarrow> dbl" where
  "lcd_to_double rawval0 rs_packet type =
     (let end = (if type = READ_TEMP then 1 else 0 :: nat);
          (rawval, multiplier) = lcd_loop rs_packet (rev [end ..< 4]) rawval0 1 False;
          rawval = dmul rawval multiplier;
          rawval = (if info rs_packet AND INFO_NEG \<noteq> 0 then dmul rawval (- 1) else rawval)
      in if indicatrix1 rs_packet AND IND2_NANO \<noteq> 0 then dmul rawval (1 / 10 ^ 9)
         else if indicatrix2 rs_packet AND IND2_MICRO \<noteq> 0 then dmul rawval (1 / 10 ^ 6)
         else if indicatrix1 rs_packet AND IND1_MILI \<noteq> 0 then dmul rawval (1 / 10 ^ 3)
         else if indicatrix1 rs_packet AND IND1_KILO \<noteq> 0 then dmul rawval (10 ^ 3)
         else if indicatrix1 rs_packet AND IND1_MEGA \<noteq> 0 then dmul rawval (10 ^ 6)
         else rawval)"

definition is_celsius :: "rs9lcd_packet \<Rightarrow> bool" where
  "is_celsius rs_packet = (digit4 rs_packet AND NOT DP_MASK = LCD_C)"

definition is_shortcirc :: "rs9lcd_packet \<Rightarrow> bool" where
  "is_shortcirc rs_packet = (digit2 rs_packet AND NOT DP_MASK = LCD_h)"

definition is_logic_high :: "rs9lcd_packet \<Rightarrow> bool" where
  "is_logic_high rs_packet = (digit2 rs_packet AND NOT DP_MASK = LCD_H)"

subsection \<open>The analog packet\<close>

datatype sr_mq =
    SR_MQ_VOLTAGE | SR_MQ_CURRENT | SR_MQ_RESISTANCE | SR_MQ_CAPACITANCE
  | SR_MQ_TEMPERATURE | SR_MQ_FREQUENCY | SR_MQ_DUTY_CYCLE | SR_MQ_CONTINUITY
  | SR_MQ_PULSE_WIDTH | SR_MQ_CONDUCTANCE | SR_MQ_POWER | SR_MQ_GAIN
  | SR_MQ_SOUND_PRESSURE_LEVEL | SR_MQ_CARBON_MONOXIDE | SR_MQ_RELATIVE_HUMIDITY

datatype sr_unit =
    SR_UNIT_VOLT | SR_UNIT_AMPERE | SR_UNIT_OHM | SR_UNIT_FARAD | SR_UNIT_KELVIN
  | SR_UNIT_CELSIUS | SR_UNIT_FAHRENHEIT | SR_UNIT_HERTZ | SR_UNIT_PERCENTAGE
  | SR_UNIT_BOOLEAN | SR_UNIT_SECOND | SR_UNIT_SIEMENS | SR_UNIT_DECIBEL_MW
  | SR_UNIT_DECIBEL_VOLT | SR_UNIT_UNITLESS | SR_UNIT_DECIBEL_SPL | SR_UNIT_CONCENTRATION

definition SR_MQFLAG_AC :: u64 where "SR_MQFLAG_AC = 0x01"
definition SR_MQFLAG_DC :: u64 where "SR_MQFLAG_DC = 0x02"
definition SR_MQFLAG_RMS :: u64 where "SR_MQFLAG_RMS = 0x04"
definition SR_MQFLAG_DIODE :: u64 where "SR_MQFLAG_DIODE = 0x08"
definition SR_MQFLAG_HOLD :: u64 where "SR_MQFLAG_HOLD = 0x10"
definition SR_MQFLAG_MAX :: u64 where "SR_MQFLAG_MAX = 0x20"
definition SR_MQFLAG_MIN :: u64 where "SR_MQFLAG_MIN = 0x40"
definition SR_MQFLAG_AUTORANGE :: u64 where "SR_MQFLAG_AUTORANGE = 0x80"

text \<open>
  \<open>struct sr_datafeed_analog\<close>; \<open>data\<close> is the float the \<open>data\<close> pointer refers to.
\<close>

record sr_datafeed_analog =
  num_samples_a :: int
  mq :: sr_mq
  unit :: sr_unit
  mqflags :: u64
  data :: dbl

definition bool_to_dbl :: "bool \<Rightarrow> dbl" where
  "bool_to_dbl b = Some (if b then 1 else 0)"

text \<open>
  The \<open>switch (rs_packet->mode)\<close> of \<open>sr_rs9lcd_parse\<close>. The three pulse-width labels
  have no \<open>break\<close>: control runs on into the \<open>MODE_TEMP\<close> statements, which is written
  out in that branch.
\<close>

definition parse_mode :: "dbl \<Rightarrow> rs9lcd_packet \<Rightarrow> dbl \<Rightarrow> sr_datafeed_analog \<Rightarrow> sr_datafeed_analog" where
  "parse_mode rawval0 rs_packet rawval analog =
     (let m = unat (mode rs_packet)
      in if m = MODE_DC_V then
           analog\<lparr>mq := SR_MQ_VOLTAGE, unit := SR_UNIT_VOLT,
                  mqflags := mqflags analog OR SR_MQFLAG_DC\<rparr>
         else if m = MODE_AC_V then
           analog\<lparr>mq := SR_MQ_VOLTAGE, unit := SR_UNIT_VOLT,
                  mqflags := mqflags analog OR SR_MQFLAG_AC\<rparr>
         else if m = MODE_DC_UA \<or> m = MODE_DC_MA \<or> m = MODE_DC_A then
           analog\<lparr>mq := SR_MQ_CURRENT, unit := SR_UNIT_AMPERE,
                  mqflags := mqflags analog OR SR_MQFLAG_DC\<rparr>
         else if m = MODE_AC_UA \<or> m = MODE_AC_MA \<or> m = MODE_AC_A then
           analog\<lparr>mq := SR_MQ_CURRENT, unit := SR_UNIT_AMPERE,
                  mqflags := mqflags analog OR SR_MQFLAG_AC\<rparr>
         else if m = MODE_OHM then
           analog\<lparr>mq := SR_MQ_RESISTANCE, unit := SR_UNIT_OHM\<rparr>
         else if m = MODE_FARAD then
           analog\<lparr>mq := SR_MQ_CAPACITANCE, unit := SR_UNIT_FARAD\<rparr>
         else if m = MODE_CONT then
           analog\<lparr>mq := SR_MQ_CONTINUITY, unit := SR_UNIT_BOOLEAN,
                  data := bool_to_dbl (is_shortcirc rs_packet)\<rparr>
         else if m = MODE_DIODE then
           analog\<lparr>mq := SR_MQ_VOLTAGE, unit := SR_UNIT_VOLT,
                  mqflags := mqflags analog OR (SR_MQFLAG_DIODE OR SR_MQFLAG_DC)\<rparr>
         else if m = MODE_HZ \<or> m = MODE_VOLT_HZ \<or> m = MODE_AMP_HZ then
           analog\<lparr>mq := SR_MQ_FREQUENCY, unit := SR_UNIT_HERTZ\<rparr>
         else if m = MODE_LOGIC then
           (if rawval \<noteq> None
            then analog\<lparr>mq := SR_MQ_VOLTAGE, unit := SR_UNIT_VOLT\<rparr>
            else analog\<lparr>mq := SR_MQ_VOLTAGE, unit := SR_UNIT_BOOLEAN,
                        data := bool_to_dbl (is_logic_high rs_packet)\<rparr>)
         else if m = MODE_HFE then
           analog\<lparr>mq := SR_MQ_GAIN, unit := SR_UNIT_UNITLESS\<rparr>
         else if m = MODE_DUTY \<or> m = MODE_VOLT_DUTY \<or> m = MODE_AMP_DUTY then
           analog\<lparr>mq := SR_MQ_DUTY_CYCLE, unit := SR_UNIT_PERCENTAGE\<rparr>
         else if m = MODE_WIDTH \<or> m = MODE_VOLT_WIDTH \<or> m = MODE_AMP_WIDTH then
           (let analog = analog\<lparr>mq := SR_MQ_PULSE_WIDTH, unit := SR_UNIT_SECOND\<rparr>;
                analog = analog\<lparr>mq := SR_MQ_TEMPERATURE\<rparr>;
                analog = analog\<lparr>data := lcd_to_double rawval0 rs_packet READ_TEMP\<rparr>
            in analog\<lparr>unit := (if is_celsius rs_packet then SR_UNIT_CELSIUS
                                else SR_UNIT_FAHRENHEIT)\<rparr>)
         else if m = MODE_TEMP then
           (let analog = analog\<lparr>mq := SR_MQ_TEMPERATURE\<rparr>;
                analog = analog\<lparr>data := lcd_to_double rawval0 rs_packet READ_TEMP\<rparr>
            in analog\<lparr>unit := (if is_celsius rs_packet then SR_UNIT_CELSIUS
                                else SR_UNIT_FAHRENHEIT)\<rparr>)
         else if m = MODE_DBM then
           analog\<lparr>mq := SR_MQ_POWER, unit := SR_UNIT_DECIBEL_MW,
                  mqflags := mqflags analog OR SR_MQFLAG_AC\<rparr>
         else analog)"

datatype sr_ret = SR_OK | SR_ERR | SR_ERR_MALLOC | SR_ERR_ARG | SR_ERR_BUG | SR_ERR_SAMPLERATE

text \<open>
  \<open>sr_rs9lcd_parse\<close> returns the status, the value stored through \<open>floatval\<close> and the
  updated analog packet. \<open>rawval0\<close> stands for the uninitialised local of the two calls
  of \<open>lcd_to_double\<close>.
\<close>

definition sr_rs9lcd_parse :: "dbl \<Rightarrow> u8 list \<Rightarrow> sr_datafeed_analog \<Rightarrow> sr_ret \<times> dbl \<times> sr_datafeed_analog" where
  "sr_rs9lcd_parse rawval0 buf analog0 =
     (let rs_packet = rs_packet_of buf;
          rawval = lcd_to_double rawval0 rs_packet READ_ALL;
          analog = parse_mode rawval0 rs_packet rawval analog0;
          analog = (if info rs_packet AND INFO_HOLD \<noteq> 0
                    then analog\<lparr>mqflags := mqflags analog OR SR_MQFLAG_HOLD\<rparr> else analog);
          analog = (if digit4 rs_packet AND DIG4_MAX \<noteq> 0
                    then analog\<lparr>mqflags := mqflags analog OR SR_MQFLAG_MAX\<rparr> else analog);
          analog = (if indicatrix2 rs_packet AND IND2_MIN \<noteq> 0
                    then analog\<lparr>mqflags := mqflags analog OR SR_MQFLAG_MIN\<rparr> else analog);
          analog = (if info rs_packet AND INFO_AUTO \<noteq> 0
                    then analog\<lparr>mqflags := mqflags analog OR SR_MQFLAG_AUTORANGE\<rparr> else analog)
      in (SR_OK, rawval, analog))"

subsection \<open>What the specification calls multiplier and quantity bits\<close>

text \<open>
  The number of multiplier indicators lit in a frame, over the group
  \<open>IND1_KILO, IND1_MEGA, IND1_MILI\<close> of the first indicator byte and
  \<open>IND2_MICRO, IND2_NANO\<close> of the second; and the number of quantity indicators lit,
  over \<open>IND1_HZ, IND1_OHM, IND1_FARAD, IND1_AMP, IND1_VOLT\<close> and
  \<open>IND2_DBM, IND2_SEC, IND2_DUTY, IND2_HFE\<close>. These follow the specification's wording
  and are compared with \<open>selection_good\<close>.
\<close>

definition lit :: "u8 \<Rightarrow> u8 list \<Rightarrow> nat" where
  "lit x bits = length (filter (\<lambda>b. x AND b \<noteq> 0) bits)"

definition spec_multiplier_bits :: "u8 list \<Rightarrow> nat" where
  "spec_multiplier_bits buf =
     lit (buf ! 1) [IND1_KILO, IND1_MEGA, IND1_MILI] + lit (buf ! 2) [IND2_MICRO, IND2_NANO]"

definition spec_quantity_bits :: "u8 list \<Rightarrow> nat" where
  "spec_quantity_bits buf =
     lit (buf ! 1) [IND1_HZ, IND1_OHM, IND1_FARAD, IND1_AMP, IND1_VOLT]
     + lit (buf ! 2) [IND2_DBM, IND2_SEC, IND2_DUTY, IND2_HFE]"

section \<open>Openbench Logic Sniffer (hardware/openbench-logic-sniffer/ols.c)\<close>

subsection \<open>C integer conversions\<close>

text \<open>
  The driver's counters are modelled as mathematical integers; where the source stores a
  value in a narrower C type the conversion is written out: \<open>to_u16\<close>, \<open>to_u32\<close> and
  \<open>to_u64\<close> reduce modulo the width, \<open>to_int\<close> is the conversion to a 32-bit
  two's-complement \<open>int\<close>.
\<close>

definition to_u16 :: "int \<Rightarrow> int" where "to_u16 x = x mod 2 ^ 16"
definition to_u32 :: "int \<Rightarrow> int" where "to_u32 x = x mod 2 ^ 32"
definition to_u64 :: "int \<Rightarrow> int" where "to_u64 x = x mod 2 ^ 64"
definition to_int :: "int \<Rightarrow> int" where "to_int x = (x + 2 ^ 31) mod 2 ^ 32 - 2 ^ 31"

subsection \<open>Declarations of the public header\<close>

datatype sr_status =
  SR_ST_NOT_FOUND | SR_ST_INITIALIZING | SR_ST_INACTIVE | SR_ST_ACTIVE | SR_ST_STOPPING

definition SR_HWCAP_SAMPLERATE :: int where "SR_HWCAP_SAMPLERATE = 20000"
definition SR_HWCAP_CAPTURE_RATIO :: int where "SR_HWCAP_CAPTURE_RATIO = 20001"
definition SR_HWCAP_PATTERN_MODE :: int where "SR_HWCAP_PATTERN_MODE = 20002"
definition SR_HWCAP_RLE :: int where "SR_HWCAP_RLE = 20003"
definition SR_HWCAP_LIMIT_MSEC :: int where "SR_HWCAP_LIMIT_MSEC = 40000"
definition SR_HWCAP_LIMIT_SAMPLES :: int where "SR_HWCAP_LIMIT_SAMPLES = 40001"

definition SR_DI_HWOPTS :: int where "SR_DI_HWOPTS = 10000"
definition SR_DI_HWCAPS :: int where "SR_DI_HWCAPS = 10001"
definition SR_DI_NUM_PROBES :: int where "SR_DI_NUM_PROBES = 10002"
definition SR_DI_PROBE_NAMES :: int where "SR_DI_PROBE_NAMES = 10003"
definition SR_DI_SAMPLERATES :: int where "SR_DI_SAMPLERATES = 10004"
definition SR_DI_TRIGGER_TYPES :: int where "SR_DI_TRIGGER_TYPES = 10005"
definition SR_DI_CUR_SAMPLERATE :: int where "SR_DI_CUR_SAMPLERATE = 10006"

text \<open>\<open>struct sr_probe\<close>; \<open>trigger\<close> is \<open>None\<close> for a NULL string.\<close>

record sr_probe =
  index :: nat
  enabled :: bool
  name :: string
  trigger :: "string option"

text \<open>
  The datafeed packets the driver sends: the packet type with the payload it points to,
  \<open>SR_DF_HEADER feed_version starttime\<close>, \<open>SR_DF_META_LOGIC num_probes samplerate\<close>
  and \<open>SR_DF_LOGIC length unitsize data\<close>. The data of a logic packet is the content of
  the \<open>length\<close> bytes at \<open>logic.data\<close>, as far as they lie inside the sample buffer.
\<close>

datatype sr_datafeed_packet =
    SR_DF_HEADER int int
  | SR_DF_META_LOGIC int int
  | SR_DF_LOGIC int int "u8 list"
  | SR_DF_TRIGGER
  | SR_DF_END

subsection \<open>Declarations of the driver's header\<close>

text \<open>
  \<open>ols.h\<close> is not among the sources. The macros the driver takes from it are parameters
  of the model: the device clock, the smallest sample limit, the number of probes, and the
  flag-register bits for demultiplexing, the noise filter and run-length encoding.
  \<open>CLOCK_RATE\<close> is read as a positive \<open>int\<close> constant.
\<close>

record ols_h =
  CLOCK_RATE :: int
  MIN_NUM_SAMPLES :: int
  NUM_PROBES :: int
  FLAG_DEMUX :: u32
  FLAG_FILTER :: u32
  FLAG_RLE :: u32

text \<open>
  Modelled from the spec: \<open>struct dev_context\<close> is declared in \<open>ols.h\<close>, which is not
  among the sources. The fields are those \<open>ols.c\<close> reads and writes. Their widths follow
  the uses in \<open>ols.c\<close> where these show them (\<open>cur_samplerate\<close> and
  \<open>limit_samples\<close> are printed as 64-bit unsigned, \<open>cur_samplerate_divider\<close> as
  \<open>unsigned int\<close>, \<open>rle_count\<close> is read through an \<open>int\<close> pointer, the flag register
  and the trigger words are the 32-bit data of a long command, \<open>capture_ratio\<close> is
  tested for \<open>< 0\<close> and so is signed: it is taken to be an \<open>int\<close>, and what is stored
  in it is narrowed to 32 bits); the other counters (\<open>trigger_at\<close>, \<open>num_stages\<close>,
  \<open>num_transfers\<close>, \<open>num_samples\<close>, \<open>num_bytes\<close>, \<open>max_samplerate\<close>,
  \<open>max_samples\<close>) hold the integers assigned to them. \<open>raw_sample_buf\<close> is
  \<open>None\<close> while no buffer is allocated.
\<close>

record dev_context =
  max_samplerate :: int
  max_samples :: int
  protocol_version :: int
  cur_samplerate :: int
  cur_samplerate_divider :: int
  limit_samples :: int
  capture_ratio :: int
  trigger_at :: int
  probe_mask :: u32
  trigger_mask :: "u32 list"
  trigger_value :: "u32 list"
  num_stages :: int
  flag_reg :: u32
  num_transfers :: int
  num_samples :: int
  rle_count :: int
  num_bytes :: int
  sample :: "u8 list"
  tmp_sample :: "u8 list"
  raw_sample_buf :: "u8 list option"

text \<open>\<open>struct sr_dev_inst\<close>, with the fields the driver uses; \<open>priv\<close> is the device context.\<close>

record sr_dev_inst =
  status :: sr_status
  probes :: "sr_probe list"
  priv :: dev_context

text \<open>The driver's table \<open>samplerates\<close>: \<open>SR_HZ(10)\<close>, \<open>SR_MHZ(200)\<close>, \<open>SR_HZ(1)\<close>.\<close>

definition samplerates_low :: int where "samplerates_low = 10"
definition samplerates_high :: int where "samplerates_high = 200 * 1000000"
definition samplerates_step :: int where "samplerates_step = 1"

subsection \<open>\<open>ols_dev_new\<close>\<close>

text \<open>
  A zero-filled context (\<open>g_try_malloc0\<close>) with \<open>trigger_at = -1\<close>, a full probe mask
  and \<open>cur_samplerate = SR_KHZ(200)\<close>. Modelled from the spec: the trigger arrays have
  one word per stage, of which there are four.
\<close>

definition ols_dev_new :: dev_context where
  "ols_dev_new =
     \<lparr> max_samplerate = 0, max_samples = 0, protocol_version = 0,
       cur_samplerate = 200 * 1000, cur_samplerate_divider = 0, limit_samples = 0,
       capture_ratio = 0, trigger_at = - 1, probe_mask = 0xffffffff,
       trigger_mask = [0, 0, 0, 0], trigger_value = [0, 0, 0, 0], num_stages = 0,
       flag_reg = 0, num_transfers = 0, num_samples = 0, rle_count = 0, num_bytes = 0,
       sample = [0, 0, 0, 0], tmp_sample = [0, 0, 0, 0], raw_sample_buf = None \<rparr>"

subsection \<open>\<open>hw_info_get\<close>\<close>

datatype info_data =
    Hwcaps | Num_probes int | Probe_names | Samplerates | Trigger_types
  | Cur_samplerate int

text \<open>
  Returns the status and what \<open>*data\<close> is set to (\<open>None\<close>: left untouched). For
  \<open>SR_DI_CUR_SAMPLERATE\<close> the pointer is to \<open>devc->cur_samplerate\<close>, whose content is
  given.
\<close>

definition hw_info_get :: "int \<Rightarrow> sr_dev_inst option \<Rightarrow> sr_ret \<times> info_data option" where
  "hw_info_get info_id sdi =
     (if info_id = SR_DI_HWCAPS then (SR_OK, Some Hwcaps)
      else if info_id = SR_DI_NUM_PROBES then (SR_OK, Some (Num_probes 1))
      else if info_id = SR_DI_PROBE_NAMES then (SR_OK, Some Probe_names)
      else if info_id = SR_DI_SAMPLERATES then (SR_OK, Some Samplerates)
      else if info_id = SR_DI_TRIGGER_TYPES then (SR_OK, Some Trigger_types)
      else if info_id = SR_DI_CUR_SAMPLERATE then
        (case sdi of
           Some s \<Rightarrow> (SR_OK, Some (Cur_samplerate (cur_samplerate (priv s))))
         | None \<Rightarrow> (SR_ERR, None))
      else (SR_ERR_ARG, None))"

subsection \<open>\<open>set_samplerate\<close>\<close>

text \<open>
  The part after the divider is chosen: the effective rate is
  \<open>CLOCK_RATE / (divider + 1)\<close>, in \<open>unsigned int\<close> arithmetic, doubled when the demux
  flag is set. \<open>None\<close> is the trap of an integer division by zero.
\<close>

definition samplerate_from_divider :: "ols_h \<Rightarrow> sr_dev_inst \<Rightarrow> dev_context \<Rightarrow> (sr_ret \<times> sr_dev_inst) option" where
  "samplerate_from_divider h sdi devc =
     (if to_u32 (cur_samplerate_divider devc + 1) = 0 then None
      else
       (let devc = devc\<lparr>cur_samplerate := CLOCK_RATE h div to_u32 (cur_samplerate_divider devc + 1)\<rparr>;
            devc = (if flag_reg devc AND FLAG_DEMUX h \<noteq> 0
                    then devc\<lparr>cur_samplerate := to_u64 (cur_samplerate devc * 2)\<rparr> else devc)
        in Some (SR_OK, sdi\<lparr>priv := devc\<rparr>)))"

text \<open>
  \<open>samplerate\<close> is a \<open>uint64_t\<close>. With a device-reported maximum only the upper bound
  is tested; otherwise the driver's range. Above the clock rate the demux flag is set.
\<close>

definition set_samplerate :: "ols_h \<Rightarrow> sr_dev_inst \<Rightarrow> int \<Rightarrow> (sr_ret \<times> sr_dev_inst) option" where
  "set_samplerate h sdi samplerate =
     (let devc = priv sdi
      in if max_samplerate devc \<noteq> 0 \<and> samplerate > max_samplerate devc
           then Some (SR_ERR_SAMPLERATE, sdi)
         else if max_samplerate devc = 0
                 \<and> (samplerate < samplerates_low \<or> samplerate > samplerates_high)
           then Some (SR_ERR_SAMPLERATE, sdi)
         else if samplerate > CLOCK_RATE h then
           samplerate_from_divider h sdi
             (devc\<lparr>flag_reg := flag_reg devc OR FLAG_DEMUX h,
                    cur_samplerate_divider := to_u32 (CLOCK_RATE h * 2 div samplerate - 1)\<rparr>)
         else if samplerate = 0 then None
         else
           samplerate_from_divider h sdi
             (devc\<lparr>flag_reg := flag_reg devc AND NOT (FLAG_DEMUX h),
                    cur_samplerate_divider := to_u32 (CLOCK_RATE h div samplerate - 1)\<rparr>))"

subsection \<open>\<open>hw_dev_config_set\<close>\<close>

text \<open>
  The \<open>value\<close> argument is an untyped pointer: for the sample rate, the sample limit and
  the capture ratio it is dereferenced as a \<open>uint64_t\<close> (\<open>U64_at v\<close>), for run-length
  encoding the pointer itself is read as an integer (\<open>As_int i\<close>). A value of the
  other kind than the capability reads is outside the model (\<open>None\<close>), as is the
  division trap of \<open>set_samplerate\<close>. The capture ratio is stored first, which narrows
  the \<open>uint64_t\<close> to the \<open>int\<close> field, and the range test reads the field.
\<close>

datatype config_value = U64_at int | As_int int

definition hw_dev_config_set :: "ols_h \<Rightarrow> sr_dev_inst \<Rightarrow> int \<Rightarrow> config_value \<Rightarrow> (sr_ret \<times> sr_dev_inst) option" where
  "hw_dev_config_set h sdi hwcap val =
     (let devc = priv sdi
      in if status sdi \<noteq> SR_ST_ACTIVE then Some (SR_ERR, sdi)
         else if hwcap = SR_HWCAP_SAMPLERATE then
           (case val of U64_at v \<Rightarrow> set_samplerate h sdi v | As_int i \<Rightarrow> None)
         else if hwcap = SR_HWCAP_LIMIT_SAMPLES then
           (case val of
              U64_at v \<Rightarrow>
                if v < MIN_NUM_SAMPLES h then Some (SR_ERR, sdi)
                else Some (SR_OK, sdi\<lparr>priv := devc\<lparr>limit_samples := v\<rparr>\<rparr>)
            | As_int i \<Rightarrow> None)
         else if hwcap = SR_HWCAP_CAPTURE_RATIO then
           (case val of
              U64_at v \<Rightarrow>
                (let devc = devc\<lparr>capture_ratio := to_int v\<rparr>
                 in if capture_ratio devc < 0 \<or> capture_ratio devc > 100
                    then Some (SR_ERR, sdi\<lparr>priv := devc\<lparr>capture_ratio := 0\<rparr>\<rparr>)
                    else Some (SR_OK, sdi\<lparr>priv := devc\<rparr>))
            | As_int i \<Rightarrow> None)
         else if hwcap = SR_HWCAP_RLE then
           (case val of
              As_int i \<Rightarrow>
                if i \<noteq> 0
                then Some (SR_OK, sdi\<lparr>priv := devc\<lparr>flag_reg := flag_reg devc OR FLAG_RLE h\<rparr>\<rparr>)
                else Some (SR_OK, sdi)
            | U64_at v \<Rightarrow> None)
         else Some (SR_ERR, sdi))"

subsection \<open>The world around the device context\<close>

text \<open>
  What the driver acts on besides its context: the packets handed to
  \<open>sr_session_send\<close>, in order; the timeout of the source registered for the port
  (\<open>None\<close>: no source); whether the port is open; how many further writes to the port
  succeed; whether a store went outside the sample buffer or the four-byte sample
  array, which C leaves undefined; and whether a store went outside the local array
  \<open>trigger_config\<close> of \<open>hw_dev_acquisition_start\<close>, which is undefined as well.
\<close>

record session =
  sent :: "sr_datafeed_packet list"
  source :: "int option"
  serial_open :: bool
  tx_budget :: nat
  mem_fault :: bool
  stack_fault :: bool

text \<open>
  What the surroundings decide: whether \<open>g_try_malloc\<close> returns a buffer of a given
  size, and a packet and a header structure; the wall-clock time; and the value the
  floating-point expression \<open>readcount * (1 - capture_ratio / 100.0)\<close> takes when stored
  in the 16-bit \<open>delaycount\<close>.
\<close>

record ols_env =
  malloc_ok :: "int \<Rightarrow> bool"
  packet_ok :: bool
  header_ok :: bool
  gettimeofday :: int
  delaycount_of :: "int \<Rightarrow> int \<Rightarrow> int"

definition sr_session_send :: "sr_datafeed_packet \<Rightarrow> session \<Rightarrow> session" where
  "sr_session_send packet ses = ses\<lparr>sent := sent ses @ [packet]\<rparr>"

text \<open>
  \<open>n\<close> commands in a row, each followed by \<open>return SR_ERR\<close> when its write fails:
  the result tells whether all were written. The words that go with the commands are not
  part of the model.
\<close>

definition send_commands :: "nat \<Rightarrow> session \<Rightarrow> bool \<times> session" where
  "send_commands n ses =
     (if n \<le> tx_budget ses then (True, ses\<lparr>tx_budget := tx_budget ses - n\<rparr>)
      else (False, ses\<lparr>tx_budget := 0\<rparr>))"

subsection \<open>\<open>hw_dev_open\<close>\<close>

text \<open>
  Opens the port and marks the device active; \<open>open_ok\<close> tells whether the port can be
  opened. The device context is not touched.
\<close>

definition hw_dev_open :: "bool \<Rightarrow> sr_dev_inst \<Rightarrow> session \<Rightarrow> sr_ret \<times> sr_dev_inst \<times> session" where
  "hw_dev_open open_ok sdi ses =
     (if \<not> open_ok then (SR_ERR, sdi, ses)
      else (SR_OK, sdi\<lparr>status := SR_ST_ACTIVE\<rparr>, ses\<lparr>serial_open := True\<rparr>))"

subsection \<open>\<open>configure_probes\<close>\<close>

text \<open>
  The loop over the characters of one probe's trigger string. The result tells whether the
  loop ran to the end of the string (\<open>False\<close>: \<open>stage > 3\<close>, the caller returns
  \<open>SR_ERR\<close>), with the stage reached and the two arrays.
\<close>

fun trigger_loop :: "u32 \<Rightarrow> string \<Rightarrow> nat \<Rightarrow> u32 list \<Rightarrow> u32 list \<Rightarrow> bool \<times> nat \<times> u32 list \<times> u32 list" where
  "trigger_loop probe_bit [] stage tm tv = (True, stage, tm, tv)"
| "trigger_loop probe_bit (tc # rest) stage tm tv =
     (let tm = tm[stage := tm ! stage OR probe_bit];
          tv = (if tc = CHR ''1'' then tv[stage := tv ! stage OR probe_bit] else tv);
          stage = stage + 1
      in if stage > 3 then (False, stage, tm, tv)
         else trigger_loop probe_bit rest stage tm tv)"

fun probe_loop :: "sr_probe list \<Rightarrow> dev_context \<Rightarrow> sr_ret \<times> dev_context" where
  "probe_loop [] devc = (SR_OK, devc)"
| "probe_loop (probe # l) devc =
     (if \<not> enabled probe then probe_loop l devc
      else
       (let probe_bit = push_bit (index probe) (1 :: u32);
            devc = devc\<lparr>probe_mask := probe_mask devc OR probe_bit\<rparr>
        in case trigger probe of
             None \<Rightarrow> probe_loop l devc
           | Some tcs \<Rightarrow>
              (case trigger_loop probe_bit tcs 0 (trigger_mask devc) (trigger_value devc) of
                 (ok, stage, tm, tv) \<Rightarrow>
                   (let devc = devc\<lparr>trigger_mask := tm, trigger_value := tv\<rparr>
                    in if \<not> ok then (SR_ERR, devc)
                       else if int stage > num_stages devc
                         then probe_loop l (devc\<lparr>num_stages := int stage\<rparr>)
                       else probe_loop l devc))))"

definition configure_probes :: "sr_dev_inst \<Rightarrow> sr_ret \<times> sr_dev_inst" where
  "configure_probes sdi =
     (let devc = priv sdi;
          devc = devc\<lparr>probe_mask := 0, trigger_mask := [0, 0, 0, 0],
                      trigger_value := [0, 0, 0, 0], num_stages := 0\<rparr>;
          (ret, devc) = probe_loop (probes sdi) devc
      in (ret, sdi\<lparr>priv := devc\<rparr>))"

subsection \<open>\<open>hw_dev_acquisition_start\<close>\<close>

text \<open>
  The loop \<open>for (i = 0; i < 4; i++)\<close> over the channel groups of the probe mask, giving
  \<open>changrp_mask\<close> and \<open>num_channels\<close>.
\<close>

fun changrp_loop :: "u32 \<Rightarrow> nat list \<Rightarrow> u8 \<times> int \<Rightarrow> u8 \<times> int" where
  "changrp_loop pm [] acc = acc"
| "changrp_loop pm (i # rest) (changrp_mask, num_channels) =
     (if pm AND push_bit (i * 8) 0xff \<noteq> 0
      then changrp_loop pm rest (changrp_mask OR push_bit i 1, num_channels + 1)
      else changrp_loop pm rest (changrp_mask, num_channels))"

text \<open>
  The end of \<open>hw_dev_acquisition_start\<close>, from \<open>CMD_SET_DIVIDER\<close> on, common to both
  trigger branches: two commands, the flag register and \<open>rle_count\<close>, two more commands
  (the last is \<open>CMD_RUN\<close>), the source with an infinite timeout, and the header and
  meta packets.
\<close>

definition start_tail :: "ols_h \<Rightarrow> ols_env \<Rightarrow> sr_dev_inst \<Rightarrow> dev_context \<Rightarrow> u8 \<Rightarrow> session \<Rightarrow> sr_ret \<times> sr_dev_inst \<times> session" where
  "start_tail h env sdi devc changrp_mask ses =
     (case send_commands 2 ses of
        (ok, ses) \<Rightarrow>
          if \<not> ok then (SR_ERR, sdi\<lparr>priv := devc\<rparr>, ses)
          else
           (let devc = devc\<lparr>flag_reg := flag_reg devc OR (NOT (push_bit 2 (ucast changrp_mask)) AND 0x3c)\<rparr>;
                devc = devc\<lparr>flag_reg := flag_reg devc OR FLAG_FILTER h\<rparr>;
                devc = devc\<lparr>rle_count := 0\<rparr>;
                sdi = sdi\<lparr>priv := devc\<rparr>
            in case send_commands 2 ses of
                 (ok, ses) \<Rightarrow>
                   if \<not> ok then (SR_ERR, sdi, ses)
                   else
                    (let ses = ses\<lparr>source := Some (- 1)\<rparr>
                     in if \<not> packet_ok env then (SR_ERR_MALLOC, sdi, ses)
                        else if \<not> header_ok env then (SR_ERR_MALLOC, sdi, ses)
                        else
                         (let ses = sr_session_send (SR_DF_HEADER 1 (gettimeofday env)) ses;
                              ses = sr_session_send
                                      (SR_DF_META_LOGIC (NUM_PROBES h) (cur_samplerate devc)) ses
                          in (SR_OK, sdi, ses)))))"

text \<open>
  \<open>None\<close> is the trap of \<open>devc->max_samples / num_channels\<close> when no channel group has
  an enabled probe. With a trigger on stage 0, \<open>trigger_at\<close> is computed and twelve
  commands are sent; without, three, and \<open>trigger_at\<close> keeps its value. The store
  \<open>trigger_config[devc->num_stages - 1] |= 0x08\<close> goes to a local array of four words,
  whose content only reaches the command words. With \<open>num_stages = 0\<close>, which is every
  start without a trigger, its index is \<open>-1\<close>: the store is outside the array. The model
  records that in \<open>stack_fault\<close> and goes on as if the store had hit nothing that is read
  afterwards.
\<close>

definition hw_dev_acquisition_start :: "ols_h \<Rightarrow> ols_env \<Rightarrow> sr_dev_inst \<Rightarrow> session \<Rightarrow> (sr_ret \<times> sr_dev_inst \<times> session) option" where
  "hw_dev_acquisition_start h env sdi0 ses =
     (if status sdi0 \<noteq> SR_ST_ACTIVE then Some (SR_ERR, sdi0, ses)
      else
       (case configure_probes sdi0 of
          (ret, sdi) \<Rightarrow>
            if ret \<noteq> SR_OK then Some (SR_ERR, sdi, ses)
            else
             (let devc = priv sdi;
                  (changrp_mask, num_channels) = changrp_loop (probe_mask devc) [0, 1, 2, 3] (0, 0)
              in if num_channels = 0 then None
                 else
                  (let readcount = to_u16 (min (max_samples devc div num_channels) (limit_samples devc) div 4);
                       ses = (if 0 \<le> num_stages devc - 1 \<and> num_stages devc - 1 < 4 then ses
                              else ses\<lparr>stack_fault := True\<rparr>)
                   in if trigger_mask devc ! 0 \<noteq> 0 then
                        (let delaycount = delaycount_of env readcount (capture_ratio devc);
                             devc = devc\<lparr>trigger_at := to_int ((readcount - delaycount) * 4 - num_stages devc)\<rparr>
                         in case send_commands 12 ses of
                              (ok, ses) \<Rightarrow>
                                if \<not> ok then Some (SR_ERR, sdi\<lparr>priv := devc\<rparr>, ses)
                                else Some (start_tail h env sdi devc changrp_mask ses))
                      else
                        (case send_commands 3 ses of
                           (ok, ses) \<Rightarrow>
                             if \<not> ok then Some (SR_ERR, sdi, ses)
                             else Some (start_tail h env sdi devc changrp_mask ses))))))"

subsection \<open>\<open>receive_data\<close>\<close>

text \<open>
  One call of the callback: \<open>G_IO_IN\<close> with the result of the one-byte \<open>serial_read\<close>
  (\<open>None\<close>: the read did not return a byte), or any other \<open>revents\<close>, which is the
  session loop's timeout.
\<close>

datatype io_event = G_IO_IN "u8 option" | Timeout

text \<open>The loop \<open>for (i = 0x20; i > 0x02; i /= 2)\<close> counting the enabled channel groups.\<close>

definition rx_num_channels :: "u32 \<Rightarrow> int" where
  "rx_num_channels fr = int (length (filter (\<lambda>i. fr AND i = 0) [0x20, 0x10, 0x08, 0x04]))"

text \<open>
  The expansion loop \<open>for (i = 0; i < 4; i++)\<close>: the received bytes are moved to the
  positions of the enabled channel groups of \<open>tmp_sample\<close>.
\<close>

fun expand_loop :: "u32 \<Rightarrow> u8 list \<Rightarrow> nat list \<Rightarrow> nat \<Rightarrow> u8 list \<Rightarrow> u8 list" where
  "expand_loop fr smp [] j tmp = tmp"
| "expand_loop fr smp (i # rest) j tmp =
     (if drop_bit 2 fr AND push_bit i 1 = 0
      then expand_loop fr smp rest (j + 1) (tmp[i := smp ! j])
      else expand_loop fr smp rest j tmp)"

text \<open>
  \<open>memcpy(devc->raw_sample_buf + offset + (i * 4), devc->sample, 4)\<close>: inside the
  buffer the four bytes are replaced; anywhere else (also when \<open>i * 4\<close> does not fit an
  \<open>int\<close>) the store is recorded as a fault and the buffer is left as it is.
\<close>

definition memcpy4 :: "u8 list \<Rightarrow> int \<Rightarrow> int \<Rightarrow> u8 list \<Rightarrow> u8 list \<times> bool" where
  "memcpy4 buf offset i smp =
     (let pos = offset + i * 4
      in if 0 \<le> pos \<and> i * 4 < 2 ^ 31 \<and> pos + 4 \<le> int (length buf)
         then (take (nat pos) buf @ take 4 smp @ drop (nat pos + 4) buf, False)
         else (buf, True))"

text \<open>The loop \<open>for (i = 0; i <= devc->rle_count; i++)\<close> of such copies.\<close>

function store_loop :: "u8 list \<Rightarrow> int \<Rightarrow> u8 list \<Rightarrow> int \<Rightarrow> int \<Rightarrow> bool \<Rightarrow> u8 list \<times> bool" where
  "store_loop buf offset smp i rle fault =
     (if i \<le> rle
      then (case memcpy4 buf offset i smp of
              (buf', f) \<Rightarrow> store_loop buf' offset smp (i + 1) rle (fault \<or> f))
      else (buf, fault))"
  by pat_completeness auto
termination
  by (relation "measure (\<lambda>(buf, offset, smp, i, rle, fault). nat (rle + 1 - i))") auto

text \<open>\<open>*(int * )(devc->sample)\<close> on a little-endian machine.\<close>

definition sample_as_int :: "u8 list \<Rightarrow> int" where
  "sample_as_int smp =
     to_int (uint (smp ! 0) + 2 ^ 8 * uint (smp ! 1) + 2 ^ 16 * uint (smp ! 2) + 2 ^ 24 * uint (smp ! 3))"

text \<open>
  The part of \<open>receive_data\<close> that stores a full sample: the sample count is advanced by
  \<open>rle_count + 1\<close> and clamped to the limit, the sample is expanded to four bytes when
  fewer than four channel groups are enabled, and the copies are written below the samples
  stored so far. Without a buffer the copy loop faults.
\<close>

definition rx_sample :: "int \<Rightarrow> dev_context \<Rightarrow> session \<Rightarrow> bool \<times> dev_context \<times> session" where
  "rx_sample num_channels devc0 ses =
     (let devc = devc0\<lparr>num_samples := num_samples devc0 + (rle_count devc0 + 1)\<rparr>;
          devc = (if num_samples devc > limit_samples devc
                  then devc\<lparr>rle_count := to_int (to_u64 (rle_count devc
                                              - (num_samples devc - limit_samples devc))),
                             num_samples := limit_samples devc\<rparr>
                  else devc);
          devc = (if num_channels < 4
                  then (let tmp = expand_loop (flag_reg devc) (sample devc) [0, 1, 2, 3] 0
                                    [0, 0, 0, 0]
                        in devc\<lparr>tmp_sample := tmp, sample := tmp\<rparr>)
                  else devc);
          offset = to_int (to_u64 ((limit_samples devc - num_samples devc) * 4));
          (bufo, fault) =
             (case raw_sample_buf devc of
                None \<Rightarrow> (None, True)
              | Some buf \<Rightarrow>
                  (case store_loop buf offset (sample devc) 0 (rle_count devc) False of
                     (buf', f) \<Rightarrow> (Some buf', f)));
          devc = devc\<lparr>raw_sample_buf := bufo, sample := [0, 0, 0, 0],
                       num_bytes := 0, rle_count := 0\<rparr>
      in (True, devc, ses\<lparr>mem_fault := mem_fault ses \<or> fault\<rparr>))"

text \<open>
  The branch of \<open>receive_data\<close> for a byte that was read while samples are still wanted:
  the byte is appended to the sample; a full sample is a repeat count (in RLE mode, with
  its top bit set) or is stored. A store to \<open>devc->sample\<close> beyond its four bytes is a
  fault.
\<close>

definition rx_byte :: "ols_h \<Rightarrow> u8 \<Rightarrow> int \<Rightarrow> dev_context \<Rightarrow> session \<Rightarrow> bool \<times> dev_context \<times> session" where
  "rx_byte h byte num_channels devc ses =
     (if \<not> (0 \<le> num_bytes devc \<and> num_bytes devc < 4)
      then (True, devc\<lparr>num_bytes := num_bytes devc + 1\<rparr>, ses\<lparr>mem_fault := True\<rparr>)
      else
       (let devc = devc\<lparr>sample := (sample devc)[nat (num_bytes devc) := byte],
                          num_bytes := num_bytes devc + 1\<rparr>
        in if num_bytes devc \<noteq> num_channels then (True, devc, ses)
           else if flag_reg devc AND FLAG_RLE h \<noteq> 0
                   \<and> sample devc ! nat (num_bytes devc - 1) AND 0x80 \<noteq> 0 then
             (let top = nat (num_bytes devc - 1);
                  devc = devc\<lparr>sample := (sample devc)[top := sample devc ! top AND 0x7f]\<rparr>;
                  devc = devc\<lparr>rle_count := sample_as_int (sample devc)\<rparr>;
                  devc = devc\<lparr>num_bytes := 0\<rparr>
              in (True, devc, ses))
           else rx_sample num_channels devc ses))"

text \<open>
  The bytes a subscriber finds at \<open>raw_sample_buf + pos\<close>, \<open>len\<close> of them, as far as
  they are inside the buffer.
\<close>

definition buf_slice :: "u8 list option \<Rightarrow> int \<Rightarrow> int \<Rightarrow> u8 list" where
  "buf_slice bufo pos len =
     (case bufo of None \<Rightarrow> [] | Some buf \<Rightarrow> take (nat len) (drop (nat pos) buf))"

text \<open>
  The timeout branch: the logic packets (around a trigger packet when \<open>trigger_at\<close> is
  not \<open>-1\<close>), then the buffer is freed, the source removed, the end packet sent
  (\<open>abort_acquisition\<close>) and the port closed.
\<close>

definition rx_done :: "dev_context \<Rightarrow> session \<Rightarrow> bool \<times> dev_context \<times> session" where
  "rx_done devc ses =
     (let base = to_u64 ((limit_samples devc - num_samples devc) * 4);
          ses =
            (if trigger_at devc \<noteq> - 1 then
               (let ses = (if trigger_at devc > 0
                           then sr_session_send
                                  (SR_DF_LOGIC (to_u64 (trigger_at devc * 4)) 4
                                     (buf_slice (raw_sample_buf devc) base (trigger_at devc * 4))) ses
                           else ses);
                    ses = sr_session_send SR_DF_TRIGGER ses
                in sr_session_send
                     (SR_DF_LOGIC (to_u64 (num_samples devc * 4 - trigger_at devc * 4)) 4
                        (buf_slice (raw_sample_buf devc) (trigger_at devc * 4 + base)
                           (to_u64 (num_samples devc * 4 - trigger_at devc * 4)))) ses)
             else
               sr_session_send
                 (SR_DF_LOGIC (to_u64 (num_samples devc * 4)) 4
                    (buf_slice (raw_sample_buf devc) base (to_u64 (num_samples devc * 4)))) ses);
          devc = devc\<lparr>raw_sample_buf := None\<rparr>;
          ses = ses\<lparr>source := None\<rparr>;
          ses = sr_session_send SR_DF_END ses;
          ses = ses\<lparr>serial_open := False\<rparr>
      in (True, devc, ses))"

text \<open>
  The part of \<open>receive_data\<close> after the first-call block: the count of the enabled
  channel groups and the branch on \<open>revents\<close>.
\<close>

definition rx_event :: "ols_h \<Rightarrow> io_event \<Rightarrow> dev_context \<Rightarrow> session \<Rightarrow> bool \<times> dev_context \<times> session" where
  "rx_event h revents devc ses =
     (let num_channels = rx_num_channels (flag_reg devc)
      in case revents of
           G_IO_IN None \<Rightarrow> (False, devc, ses)
         | G_IO_IN (Some byte) \<Rightarrow>
             if num_samples devc \<ge> limit_samples devc then (True, devc, ses)
             else rx_byte h byte num_channels devc ses
         | Timeout \<Rightarrow> rx_done devc ses)"

text \<open>
  \<open>receive_data\<close> for the one device of the driver (the search of the instance list by
  file descriptor finds it). The first call re-registers the source with a timeout of
  30 ms and allocates the buffer of \<open>limit_samples * 4\<close> bytes, filled with \<open>0x82\<close>;
  without a buffer it returns false.
\<close>

definition receive_data :: "ols_h \<Rightarrow> ols_env \<Rightarrow> io_event \<Rightarrow> dev_context \<Rightarrow> session \<Rightarrow> bool \<times> dev_context \<times> session" where
  "receive_data h env revents devc0 ses0 =
     (let first_call = (num_transfers devc0 = 0);
          devc = devc0\<lparr>num_transfers := num_transfers devc0 + 1\<rparr>
      in if first_call then
           (let ses = ses0\<lparr>source := Some 30\<rparr>;
                bytes = to_u64 (limit_samples devc * 4)
            in if \<not> malloc_ok env bytes then (False, devc\<lparr>raw_sample_buf := None\<rparr>, ses)
               else rx_event h revents
                      (devc\<lparr>raw_sample_buf := Some (replicate (nat bytes) 0x82)\<rparr>) ses)
         else rx_event h revents devc ses0)"

text \<open>
  Modelled from the spec: the session loop is not among the sources. It calls the
  callback of a registered source once per event, in order, and drops the source when the
  callback returns false; a source that was removed is not called again.
\<close>

fun session_run :: "ols_h \<Rightarrow> ols_env \<Rightarrow> io_event list \<Rightarrow> dev_context \<Rightarrow> session \<Rightarrow> dev_context \<times> session" where
  "session_run h env [] devc ses = (devc, ses)"
| "session_run h env (e # es) devc ses =
     (if source ses = None then (devc, ses)
      else
       (case receive_data h env e devc ses of
          (ret, devc', ses') \<Rightarrow>
            if ret then session_run h env es devc' ses'
            else (devc', ses'\<lparr>source := None\<rparr>)))"

text \<open>
  An acquisition as a frontend sees it: the start, and, when it succeeded, the events the
  session loop delivers.
\<close>

definition ols_acquisition :: "ols_h \<Rightarrow> ols_env \<Rightarrow> sr_dev_inst \<Rightarrow> session \<Rightarrow> io_event list \<Rightarrow> (sr_ret \<times> sr_dev_inst \<times> session) option" where
  "ols_acquisition h env sdi ses events =
     (case hw_dev_acquisition_start h env sdi ses of
        None \<Rightarrow> None
      | Some (ret, sdi', ses') \<Rightarrow>
          if ret \<noteq> SR_OK then Some (ret, sdi', ses')
          else
           (case session_run h env events (priv sdi') ses' of
              (devc, ses'') \<Rightarrow> Some (SR_OK, sdi'\<lparr>priv := devc\<rparr>, ses'')))"

subsection \<open>The state of a reception\<close>

text \<open>
  What holds of the device context and its surroundings between two calls of
  \<open>receive_data\<close>: the sample limit is at most \<open>2 ^ 29\<close> (four times as much still
  fits the \<open>int\<close> that holds the buffer offset), the sample count is between 0 and the
  limit, fewer bytes of the current sample are in than channel groups are enabled, the
  sample array has its four bytes, and its last byte is zero while fewer than four groups
  are enabled; the pending repeat count is not negative; no store has gone astray.
\<close>

definition rx_core :: "dev_context \<Rightarrow> session \<Rightarrow> bool" where
  "rx_core devc ses \<longleftrightarrow>
     0 \<le> limit_samples devc \<and> limit_samples devc \<le> 2 ^ 29
     \<and> 0 \<le> num_samples devc \<and> num_samples devc \<le> limit_samples devc
     \<and> 0 \<le> num_transfers devc
     \<and> 0 \<le> num_bytes devc \<and> num_bytes devc < rx_num_channels (flag_reg devc)
     \<and> length (sample devc) = 4
     \<and> (rx_num_channels (flag_reg devc) < 4 \<longrightarrow> sample devc ! 3 = 0)
     \<and> 0 \<le> rle_count devc \<and> rle_count devc < 2 ^ 31
     \<and> \<not> mem_fault ses"

text \<open>The sample buffer is allocated and has four bytes for each sample of the limit.\<close>

definition rx_buf :: "dev_context \<Rightarrow> bool" where
  "rx_buf devc =
     (case raw_sample_buf devc of
        None \<Rightarrow> False
      | Some buf \<Rightarrow> int (length buf) = 4 * limit_samples devc)"

text \<open>
  The buffer is there from the first call on, for as long as the source is registered.
\<close>

definition rx_inv :: "dev_context \<Rightarrow> session \<Rightarrow> bool" where
  "rx_inv devc ses \<longleftrightarrow>
     rx_core devc ses \<and> (source ses \<noteq> None \<and> num_transfers devc \<noteq> 0 \<longrightarrow> rx_buf devc)"

text \<open>
  The four bytes stored for a full sample: the received bytes, moved to the positions of the
  enabled channel groups when fewer than four are enabled.
\<close>

definition full_sample :: "int \<Rightarrow> u32 \<Rightarrow> u8 list \<Rightarrow> u8 list" where
  "full_sample num_channels fr smp =
     (if num_channels < 4 then expand_loop fr smp [0, 1, 2, 3] 0 [0, 0, 0, 0] else smp)"

text \<open>
  The part of the device context that only \<open>receive_data\<close> writes: the three counters,
  the sample array, and with them the limit and the buffer.
\<close>

definition rx_part :: "dev_context \<Rightarrow> int \<times> int \<times> int \<times> u8 list \<times> int \<times> u8 list option" where
  "rx_part devc = (num_transfers devc, num_samples devc, num_bytes devc, sample devc,
                   limit_samples devc, raw_sample_buf devc)"

subsection \<open>A device for evaluation\<close>

text \<open>
  One choice of the header's parameters, of the surroundings and of a device with the eight
  probes of one channel group enabled, on which the model can be run: the device is
  configured through \<open>hw_dev_config_set\<close> and started through
  \<open>hw_dev_acquisition_start\<close>, and events are delivered by \<open>session_run\<close>.
\<close>

definition ols_h_example :: ols_h where
  "ols_h_example =
     \<lparr> CLOCK_RATE = 100000000, MIN_NUM_SAMPLES = 4, NUM_PROBES = 32,
       FLAG_DEMUX = 0x01, FLAG_FILTER = 0x02, FLAG_RLE = 0x100 \<rparr>"

definition ols_env_example :: ols_env where
  "ols_env_example =
     \<lparr> malloc_ok = (\<lambda>n. 0 < n), packet_ok = True, header_ok = True, gettimeofday = 0,
       delaycount_of = (\<lambda>readcount ratio. readcount) \<rparr>"

definition session_example :: session where
  "session_example =
     \<lparr> sent = [], source = None, serial_open = True, tx_budget = 16, mem_fault = False,
       stack_fault = False \<rparr>"

definition group_probes :: "nat \<Rightarrow> sr_probe list" where
  "group_probes g =
     map (\<lambda>i. \<lparr> index = 8 * g + i, enabled = True, name = [], trigger = None \<rparr>) [0 ..< 8]"

definition sdi_example :: "nat \<Rightarrow> sr_dev_inst" where
  "sdi_example g = \<lparr> status = SR_ST_ACTIVE, probes = group_probes g, priv = ols_dev_new \<rparr>"

definition configured :: "nat \<Rightarrow> int \<Rightarrow> bool \<Rightarrow> sr_dev_inst" where
  "configured g n rle =
     (case hw_dev_config_set ols_h_example (sdi_example g) SR_HWCAP_LIMIT_SAMPLES (U64_at n) of
        Some (r, sdi) \<Rightarrow>
          (case hw_dev_config_set ols_h_example sdi SR_HWCAP_RLE (As_int (if rle then 1 else 0)) of
             Some (r', sdi') \<Rightarrow> sdi'
           | None \<Rightarrow> sdi)
      | None \<Rightarrow> sdi_example g)"

definition started :: "nat \<Rightarrow> int \<Rightarrow> bool \<Rightarrow> dev_context \<times> session" where
  "started g n rle =
     (case hw_dev_acquisition_start ols_h_example ols_env_example (configured g n rle) session_example of
        Some (r, sdi, ses) \<Rightarrow> (priv sdi, ses)
      | None \<Rightarrow> (ols_dev_new, session_example))"

definition bytes_in :: "u8 list \<Rightarrow> io_event list" where
  "bytes_in bs = map (\<lambda>b. G_IO_IN (Some b)) bs"

definition after :: "dev_context \<times> session \<Rightarrow> io_event list \<Rightarrow> dev_context \<times> session" where
  "after st evs = session_run ols_h_example ols_env_example evs (fst st) (snd st)"

text \<open>
  A whole acquisition of that device, from the start to the timeout after the bytes
  \<open>bs\<close>; and a further acquisition on the device it leaves: the port is opened again,
  the sample limit is set to \<open>n\<close>, and the device is started.
\<close>

definition first_run :: "nat \<Rightarrow> int \<Rightarrow> bool \<Rightarrow> u8 list \<Rightarrow> sr_dev_inst \<times> session" where
  "first_run g n rle bs =
     (case ols_acquisition ols_h_example ols_env_example (configured g n rle) session_example
             (bytes_in bs @ [Timeout]) of
        Some (r, sdi, ses) \<Rightarrow> (sdi, ses)
      | None \<Rightarrow> (configured g n rle, session_example))"

definition second_start :: "sr_dev_inst \<times> session \<Rightarrow> int \<Rightarrow> sr_ret \<times> dev_context \<times> session" where
  "second_start st n =
     (case hw_dev_open True (fst st) (snd st) of
        (r, sdi, ses) \<Rightarrow>
          (case hw_dev_config_set ols_h_example sdi SR_HWCAP_LIMIT_SAMPLES (U64_at n) of
             Some (r1, sdi1) \<Rightarrow>
               (case hw_dev_acquisition_start ols_h_example ols_env_example sdi1 ses of
                  Some (r2, sdi2, ses2) \<Rightarrow> (r2, priv sdi2, ses2)
                | None \<Rightarrow> (SR_ERR, priv sdi1, ses))
           | None \<Rightarrow> (SR_ERR, priv sdi, ses)))"

subsection \<open>One enabled channel group\<close>




section \<open>DSLogic FPGA configuration (src/hardware/dslogic/dslogic.c)\<close>

text \<open>
  The header \<open>dslogic.h\<close> is not among the sources. Its operation modes, its code for the
  falling clock edge, the bits of the FPGA mode word and the two limits of the logic
  analyzer are parameters.
\<close>

record dslogic_h =
  DS_OP_INTERNAL_TEST :: int
  DS_OP_EXTERNAL_TEST :: int
  DS_OP_LOOPBACK_TEST :: int
  DS_EDGE_FALLING :: int
  DS_MODE_INT_TEST :: u16
  DS_MODE_EXT_TEST :: u16
  DS_MODE_LPB_TEST :: u16
  DS_MODE_HALF_MODE :: u16
  DS_MODE_QUAR_MODE :: u16
  DS_MODE_STREAM_MODE :: u16
  DS_MODE_CLK_TYPE :: u16
  DS_MODE_CLK_EDGE :: u16
  DS_MODE_RLE_MODE :: u16
  DS_MAX_LOGIC_SAMPLERATE :: int
  DS_MAX_LOGIC_DEPTH :: int

text \<open>The fields of the device context that \<open>dslogic_fpga_configure\<close> reads.\<close>

record ds_dev_context =
  ds_mode :: int
  ds_cur_samplerate :: int
  ds_limit_samples :: int
  continuous_mode :: bool
  external_clock :: bool
  clock_edge :: int

text \<open>
  Of \<open>struct dslogic_fpga_config\<close> the three fields that \<open>dslogic_fpga_configure\<close>
  computes. The divider is \<open>None\<close> when the sample rate is 0: the quotient is then no
  finite number and its conversion to \<open>uint32_t\<close> is undefined.
\<close>

record dslogic_fpga_config =
  cfg_mode :: u16
  cfg_divider :: "int option"
  cfg_count :: int

text \<open>
  \<open>dslogic_set_trigger\<close> returns before it touches the mode word when the session has no
  trigger, and ends with \<open>v16 |= 1 << 0\<close> otherwise. The trigger masks and the channel
  enable word it fills in are left out; \<open>session_trigger\<close> tells whether
  \<open>sr_session_trigger_get\<close> finds a trigger.
\<close>

definition dslogic_set_trigger :: "bool \<Rightarrow> dslogic_fpga_config \<Rightarrow> sr_ret \<times> dslogic_fpga_config" where
  "dslogic_set_trigger session_trigger cfg =
     (if \<not> session_trigger then (SR_OK, cfg)
      else (SR_OK, cfg\<lparr>cfg_mode := cfg_mode cfg OR push_bit 0 1\<rparr>))"

text \<open>
  The test \<open>limit_samples > DS_MAX_LOGIC_DEPTH * ceil(cur_samplerate * 1.0 /
  DS_MAX_LOGIC_SAMPLERATE) && !continuous_mode\<close>. C evaluates it in \<open>double\<close>; the model
  evaluates it in the real numbers, which is the same as long as the integers involved are
  below \<open>2 ^ 53\<close> and the quotient is not rounded across an integer. For a maximal sample
  rate of 0 the C quotient is an infinity or not a number; the model lets the test fail
  there, and nothing below is stated for that case.
\<close>

definition rle_wanted :: "dslogic_h \<Rightarrow> ds_dev_context \<Rightarrow> bool" where
  "rle_wanted h devc =
     (DS_MAX_LOGIC_SAMPLERATE h \<noteq> 0
      \<and> real_of_int (ds_limit_samples devc)
          > real_of_int (DS_MAX_LOGIC_DEPTH h)
            * real_of_int \<lceil>real_of_int (ds_cur_samplerate devc) * 1.0
                            / real_of_int (DS_MAX_LOGIC_SAMPLERATE h)\<rceil>
      \<and> \<not> continuous_mode devc)"

text \<open>
  \<open>dslogic_fpga_configure\<close>. \<open>control_ok\<close> and \<open>bulk_ok\<close> tell whether the two USB
  transfers succeed. The result carries the configuration as it is handed to the bulk
  transfer, and none when the function returns before building it.
\<close>

definition dslogic_fpga_configure :: "dslogic_h \<Rightarrow> bool \<Rightarrow> bool \<Rightarrow> bool \<Rightarrow> ds_dev_context \<Rightarrow> sr_ret \<times> dslogic_fpga_config option" where
  "dslogic_fpga_configure h control_ok bulk_ok session_trigger devc =
     (if \<not> control_ok then (SR_ERR, None)
      else
       (let v16 = (0x0000 :: u16);
            v16 = (if ds_mode devc = DS_OP_INTERNAL_TEST h then DS_MODE_INT_TEST h
                   else if ds_mode devc = DS_OP_EXTERNAL_TEST h then DS_MODE_EXT_TEST h
                   else if ds_mode devc = DS_OP_LOOPBACK_TEST h then DS_MODE_LPB_TEST h
                   else v16);
            v16 = (if ds_cur_samplerate devc = DS_MAX_LOGIC_SAMPLERATE h * 2
                     then v16 OR DS_MODE_HALF_MODE h
                   else if ds_cur_samplerate devc = DS_MAX_LOGIC_SAMPLERATE h * 4
                     then v16 OR DS_MODE_QUAR_MODE h
                   else v16);
            v16 = (if continuous_mode devc then v16 OR DS_MODE_STREAM_MODE h else v16);
            v16 = (if external_clock devc
                   then (let v16 = v16 OR DS_MODE_CLK_TYPE h
                         in if clock_edge devc = DS_EDGE_FALLING h
                            then v16 OR DS_MODE_CLK_EDGE h else v16)
                   else v16);
            v16 = (if rle_wanted h devc then v16 OR DS_MODE_RLE_MODE h else v16);
            cfg = \<lparr> cfg_mode = v16,
                    cfg_divider =
                      (if ds_cur_samplerate devc = 0 then None
                       else Some (to_u32 \<lceil>real_of_int (DS_MAX_LOGIC_SAMPLERATE h) * 1.0
                                           / real_of_int (ds_cur_samplerate devc)\<rceil>)),
                    cfg_count = to_u32 (ds_limit_samples devc) \<rparr>;
            (r, cfg) = dslogic_set_trigger session_trigger cfg
        in if \<not> bulk_ok then (SR_ERR, Some cfg) else (SR_OK, Some cfg)))"

text \<open>
  What \<open>RLE_MODE\<close> has to be for a test of it to tell anything: a bit pattern that is not
  empty and shares no bit with the other mode constants the function may set, nor with
  bit 0, which \<open>dslogic_set_trigger\<close> sets.
\<close>

definition rle_bit_apart :: "dslogic_h \<Rightarrow> bool" where
  "rle_bit_apart h \<longleftrightarrow>
     DS_MODE_RLE_MODE h \<noteq> 0
     \<and> DS_MODE_RLE_MODE h AND
         (DS_MODE_INT_TEST h OR DS_MODE_EXT_TEST h OR DS_MODE_LPB_TEST h OR DS_MODE_HALF_MODE h
          OR DS_MODE_QUAR_MODE h OR DS_MODE_STREAM_MODE h OR DS_MODE_CLK_TYPE h
          OR DS_MODE_CLK_EDGE h OR 1) = 0"

text \<open>
  One choice of the constants, with every mode constant a bit of its own, and a device
  context one sample above the depth at the maximal rate.
\<close>

definition dslogic_h_example :: dslogic_h where
  "dslogic_h_example =
     \<lparr> DS_OP_INTERNAL_TEST = 1, DS_OP_EXTERNAL_TEST = 2, DS_OP_LOOPBACK_TEST = 3,
       DS_EDGE_FALLING = 1,
       DS_MODE_INT_TEST = 0x8000, DS_MODE_EXT_TEST = 0x4000, DS_MODE_LPB_TEST = 0x2000,
       DS_MODE_HALF_MODE = 0x20, DS_MODE_QUAR_MODE = 0x40, DS_MODE_STREAM_MODE = 0x1000,
       DS_MODE_CLK_TYPE = 0x02, DS_MODE_CLK_EDGE = 0x04, DS_MODE_RLE_MODE = 0x08,
       DS_MAX_LOGIC_SAMPLERATE = 100000000, DS_MAX_LOGIC_DEPTH = 16000000 \<rparr>"

definition ds_devc_example :: ds_dev_context where
  "ds_devc_example =
     \<lparr> ds_mode = 0, ds_cur_samplerate = 100000000, ds_limit_samples = 16000001,
       continuous_mode = False, external_clock = False, clock_edge = 0 \<rparr>"

section \<open>Properties of frame validation\<close>

lemma unat_foldl_add_u8:
  "unat (foldl (+) (a :: u8) xs) = (unat a + sum_list (map unat xs)) mod 256"
proof (induction xs arbitrary: a)
  case Nil
  have "unat a < 2 ^ LENGTH(8)" by (rule unsigned_less)
  then show ?case by simp
next
  case (Cons x xs)
  have "unat (foldl (+) (a + x) xs) = (unat (a + x) + sum_list (map unat xs)) mod 256"
    by (rule Cons.IH)
  also have "unat (a + x) = (unat a + unat x) mod 256"
    by (simp add: unat_word_ariths)
  finally show ?case
    by (simp add: mod_add_left_eq add.assoc)
qed

lemma checksum_valid_iff:
  "checksum_valid p \<longleftrightarrow>
     (sum_list (map unat (take 8 (raw_of p))) + 57) mod 256 = unat (checksum p)"
proof -
  let ?s = "foldl (+) (0 :: u8) (take 8 (raw_of p))"
  have "checksum_valid p \<longleftrightarrow> ?s + 57 = checksum p"
    by (simp add: checksum_valid_def RS9LCD_PACKET_SIZE_def Let_def)
  also have "\<dots> \<longleftrightarrow> unat (?s + 57) = unat (checksum p)"
    by (simp add: word_unat_eq_iff)
  also have "unat (?s + 57) = (unat ?s + 57) mod 256"
    by (simp add: unat_word_ariths)
  also have "\<dots> = (sum_list (map unat (take 8 (raw_of p))) + 57) mod 256"
    by (simp add: unat_foldl_add_u8 mod_add_left_eq)
  finally show ?thesis .
qed

lemma raw_of_rs_packet_of:
  assumes "length buf = 9"
  shows "raw_of (rs_packet_of buf) = buf"
proof -
  from assms obtain b0 b1 b2 b3 b4 b5 b6 b7 b8
    where "buf = [b0, b1, b2, b3, b4, b5, b6, b7, b8]"
    by (auto simp: numeral_eq_Suc length_Suc_conv)
  then show ?thesis
    by (simp add: raw_of_def rs_packet_of_def)
qed

text \<open>
  C3. Every nine-byte buffer that \<open>sr_rs9lcd_packet_valid\<close> accepts satisfies the checksum
  equation: the sum of bytes 0..7 plus 57, modulo 256, equals byte 8. A buffer that
  violates the equation is rejected.
\<close>

theorem C3_accepted_frame_checksum:
  assumes "length buf = 9"
  shows "(sr_rs9lcd_packet_valid buf \<longrightarrow>
            (sum_list (map unat (take 8 buf)) + 57) mod 256 = unat (buf ! 8))
       \<and> ((sum_list (map unat (take 8 buf)) + 57) mod 256 \<noteq> unat (buf ! 8) \<longrightarrow>
            \<not> sr_rs9lcd_packet_valid buf)"
proof -
  have v: "sr_rs9lcd_packet_valid buf \<Longrightarrow> checksum_valid (rs_packet_of buf)"
    by (simp add: sr_rs9lcd_packet_valid_def Let_def split: if_splits)
  have c: "checksum (rs_packet_of buf) = buf ! 8"
    by (simp add: rs_packet_of_def)
  have "checksum_valid (rs_packet_of buf) \<longleftrightarrow>
          (sum_list (map unat (take 8 buf)) + 57) mod 256 = unat (buf ! 8)"
    using checksum_valid_iff [of "rs_packet_of buf"] raw_of_rs_packet_of [OF assms] c
    by simp
  with v show ?thesis by blast
qed

lemmas rs_bits =
  IND1_HZ_def IND1_OHM_def IND1_KILO_def IND1_MEGA_def IND1_FARAD_def IND1_AMP_def
  IND1_VOLT_def IND1_MILI_def IND2_MICRO_def IND2_NANO_def IND2_DBM_def IND2_SEC_def
  IND2_DUTY_def IND2_HFE_def IND2_REL_def IND2_MIN_def INFO_HOLD_def INFO_NEG_def
  INFO_AUTO_def DIG4_MAX_def DP_MASK_def

lemmas rs_lcd =
  LCD_0_def LCD_1_def LCD_2_def LCD_3_def LCD_4_def LCD_5_def LCD_6_def LCD_7_def
  LCD_8_def LCD_9_def LCD_C_def LCD_h_def LCD_H_def

lemmas rs_modes =
  MODE_DC_V_def MODE_AC_V_def MODE_DC_UA_def MODE_DC_MA_def MODE_DC_A_def MODE_AC_UA_def
  MODE_AC_MA_def MODE_AC_A_def MODE_OHM_def MODE_FARAD_def MODE_HZ_def MODE_VOLT_HZ_def
  MODE_AMP_HZ_def MODE_DUTY_def MODE_VOLT_DUTY_def MODE_AMP_DUTY_def MODE_WIDTH_def
  MODE_VOLT_WIDTH_def MODE_AMP_WIDTH_def MODE_DIODE_def MODE_CONT_def MODE_HFE_def
  MODE_LOGIC_def MODE_DBM_def MODE_TEMP_def MODE_INVALID_def

lemmas rs_valid_defs =
  sr_rs9lcd_packet_valid_def rs_packet_of_def checksum_valid_def raw_of_def
  RS9LCD_PACKET_SIZE_def selection_good_def tst_def Let_def

text \<open>
  The frame of the specification's DC-volts scenario, \<open>00 02 00 00 D7 D7 D7 00 C0\<close>, is
  accepted, and the theorem gives its checksum equation.
\<close>

theorem C3_accepted_frame_checksum_witness:
  "length [0x00, 0x02, 0x00, 0x00, 0xD7, 0xD7, 0xD7, 0x00, 0xC0 :: u8] = 9
   \<and> sr_rs9lcd_packet_valid [0x00, 0x02, 0x00, 0x00, 0xD7, 0xD7, 0xD7, 0x00, 0xC0]
   \<and> (sum_list (map unat (take 8 [0x00, 0x02, 0x00, 0x00, 0xD7, 0xD7, 0xD7, 0x00, 0xC0 :: u8])) + 57)
        mod 256 = unat ([0x00, 0x02, 0x00, 0x00, 0xD7, 0xD7, 0xD7, 0x00, 0xC0 :: u8] ! 8)"
proof -
  let ?F = "[0x00, 0x02, 0x00, 0x00, 0xD7, 0xD7, 0xD7, 0x00, 0xC0 :: u8]"
  have len: "length ?F = 9" by simp
  have ok: "sr_rs9lcd_packet_valid ?F"
    by (simp add: rs_valid_defs rs_bits MODE_INVALID_def)
  from C3_accepted_frame_checksum [OF len] ok
  have "(sum_list (map unat (take 8 ?F)) + 57) mod 256 = unat (?F ! 8)" by blast
  with len ok show ?thesis by blast
qed

subsection \<open>Mutual exclusion of the indicator groups\<close>

lemma lit_Cons: "lit x (b # bs) = tst x b + lit x bs"
  by (simp add: lit_def tst_def)

lemma lit_Nil: "lit x [] = 0"
  by (simp add: lit_def)

lemma selection_good_iff:
  "selection_good (rs_packet_of buf) \<longleftrightarrow>
     \<not> 1 < spec_multiplier_bits buf \<and> \<not> 1 < spec_quantity_bits buf"
  by (simp add: selection_good_def spec_multiplier_bits_def spec_quantity_bits_def
      lit_Cons lit_Nil Let_def rs_packet_of_def add.assoc)

text \<open>
  C4. A nine-byte frame with more than one multiplier indicator lit, or more than one
  quantity indicator lit, is rejected by \<open>sr_rs9lcd_packet_valid\<close>.
\<close>

theorem C4_mutex_violation_rejected:
  assumes "length buf = 9"
    and "1 < spec_multiplier_bits buf \<or> 1 < spec_quantity_bits buf"
  shows "\<not> sr_rs9lcd_packet_valid buf"
proof
  assume "sr_rs9lcd_packet_valid buf"
  then have "selection_good (rs_packet_of buf)"
    by (simp add: sr_rs9lcd_packet_valid_def Let_def split: if_splits)
  with assms(2) show False
    by (simp add: selection_good_iff)
qed

text \<open>
  The specification's rejected frame: the DC-volts frame with \<open>indicatrix1 = 0x30\<close>
  (kilo and mega together) and a checksum that is right for these bytes, so that the mode and
  checksum tests pass and the rejection is the selection test's.
\<close>

theorem C4_mutex_violation_rejected_witness:
  "length [0x00, 0x30, 0x00, 0x00, 0xD7, 0xD7, 0xD7, 0x00, 0xEE :: u8] = 9
   \<and> 1 < spec_multiplier_bits [0x00, 0x30, 0x00, 0x00, 0xD7, 0xD7, 0xD7, 0x00, 0xEE]
   \<and> checksum_valid (rs_packet_of [0x00, 0x30, 0x00, 0x00, 0xD7, 0xD7, 0xD7, 0x00, 0xEE])
   \<and> \<not> sr_rs9lcd_packet_valid [0x00, 0x30, 0x00, 0x00, 0xD7, 0xD7, 0xD7, 0x00, 0xEE]"
proof -
  let ?F = "[0x00, 0x30, 0x00, 0x00, 0xD7, 0xD7, 0xD7, 0x00, 0xEE :: u8]"
  have len: "length ?F = 9" by simp
  have m: "1 < spec_multiplier_bits ?F"
    by (simp add: spec_multiplier_bits_def lit_def rs_bits)
  have c: "checksum_valid (rs_packet_of ?F)"
    by (simp add: rs_valid_defs)
  from C4_mutex_violation_rejected [OF len] m
  have "\<not> sr_rs9lcd_packet_valid ?F" by blast
  with len m c show ?thesis by blast
qed

subsection \<open>The multiplier chain and the pulse-width modes\<close>

lemmas rs_parse_defs =
  sr_rs9lcd_parse_def parse_mode_def lcd_to_double_def digit_at_def decode_digit_def
  dmul_def is_celsius_def is_shortcirc_def is_logic_high_def bool_to_dbl_def

lemma rev_upt_0_4: "rev [0 ..< 4] = [3, 2, 1, 0 :: nat]"
  by (simp add: upt_rec)

lemma rev_upt_1_4: "rev [1 ..< 4] = [3, 2, 1 :: nat]"
  by (simp add: upt_rec)

text \<open>
  C5. The capacitance frame \<open>09 08 40 72 F1 B5 50 00 F2\<close> is accepted, has the nano
  indicator lit in \<open>indicatrix2\<close> and no other multiplier, and shows the digits 1 2 3 4
  without a decimal point. With the uninitialised accumulator taken as 0, the value
  \<open>sr_rs9lcd_parse\<close> returns is 1234, not 1234 scaled by \<open>1e-9\<close>: the nano test reads
  \<open>indicatrix1\<close>, where bit \<open>0x40\<close> is the ohm indicator.
\<close>

theorem C5_nano_frame_not_scaled:
  "sr_rs9lcd_packet_valid [0x09, 0x08, 0x40, 0x72, 0xF1, 0xB5, 0x50, 0x00, 0xF2]
   \<and> indicatrix2 (rs_packet_of [0x09, 0x08, 0x40, 0x72, 0xF1, 0xB5, 0x50, 0x00, 0xF2]) AND IND2_NANO \<noteq> 0
   \<and> spec_multiplier_bits [0x09, 0x08, 0x40, 0x72, 0xF1, 0xB5, 0x50, 0x00, 0xF2] = 1
   \<and> fst (snd (sr_rs9lcd_parse (Some 0) [0x09, 0x08, 0x40, 0x72, 0xF1, 0xB5, 0x50, 0x00, 0xF2] a))
       = Some 1234"
proof -
  let ?F = "[0x09, 0x08, 0x40, 0x72, 0xF1, 0xB5, 0x50, 0x00, 0xF2 :: u8]"
  have 1: "sr_rs9lcd_packet_valid ?F"
    by (simp add: rs_valid_defs rs_bits MODE_INVALID_def)
  have 2: "indicatrix2 (rs_packet_of ?F) AND IND2_NANO \<noteq> 0"
    by (simp add: rs_packet_of_def rs_bits)
  have 3: "spec_multiplier_bits ?F = 1"
    by (simp add: spec_multiplier_bits_def lit_def rs_bits)
  have 4: "lcd_to_double (Some 0) (rs_packet_of ?F) READ_ALL = Some 1234"
    by (simp add: lcd_to_double_def rev_upt_0_4 digit_at_def decode_digit_def dmul_def
        rs_packet_of_def rs_bits rs_lcd Let_def)
  have 5: "fst (snd (sr_rs9lcd_parse (Some 0) ?F a)) = Some 1234"
    using 4 by (simp add: sr_rs9lcd_parse_def Let_def)
  from 1 2 3 5 show ?thesis by blast
qed

text \<open>
  C6. The pulse-width frame \<open>10 00 10 00 D7 D7 D7 00 DE\<close> (mode 16, seconds indicator)
  is accepted, and \<open>sr_rs9lcd_parse\<close> leaves the analog packet with the temperature
  quantity and the Fahrenheit unit, and stores a re-decoded value in the packet: after
  setting pulse width and seconds, control falls through into the temperature case.
\<close>

theorem C6_width_frame_parsed_as_temperature:
  "sr_rs9lcd_packet_valid [0x10, 0x00, 0x10, 0x00, 0xD7, 0xD7, 0xD7, 0x00, 0xDE]
   \<and> unat (mode (rs_packet_of [0x10, 0x00, 0x10, 0x00, 0xD7, 0xD7, 0xD7, 0x00, 0xDE])) = MODE_WIDTH
   \<and> mq (snd (snd (sr_rs9lcd_parse r [0x10, 0x00, 0x10, 0x00, 0xD7, 0xD7, 0xD7, 0x00, 0xDE] a)))
       = SR_MQ_TEMPERATURE
   \<and> unit (snd (snd (sr_rs9lcd_parse r [0x10, 0x00, 0x10, 0x00, 0xD7, 0xD7, 0xD7, 0x00, 0xDE] a)))
       = SR_UNIT_FAHRENHEIT
   \<and> data (snd (snd (sr_rs9lcd_parse r [0x10, 0x00, 0x10, 0x00, 0xD7, 0xD7, 0xD7, 0x00, 0xDE] a)))
       = lcd_to_double r (rs_packet_of [0x10, 0x00, 0x10, 0x00, 0xD7, 0xD7, 0xD7, 0x00, 0xDE]) READ_TEMP"
proof -
  let ?F = "[0x10, 0x00, 0x10, 0x00, 0xD7, 0xD7, 0xD7, 0x00, 0xDE :: u8]"
  have 1: "sr_rs9lcd_packet_valid ?F"
    by (simp add: rs_valid_defs rs_bits MODE_INVALID_def)
  have 2: "unat (mode (rs_packet_of ?F)) = MODE_WIDTH"
    by (simp add: rs_packet_of_def MODE_WIDTH_def)
  have m: "parse_mode r (rs_packet_of ?F) v a =
             a\<lparr>mq := SR_MQ_TEMPERATURE, unit := SR_UNIT_FAHRENHEIT,
               data := lcd_to_double r (rs_packet_of ?F) READ_TEMP\<rparr>" for v
    unfolding parse_mode_def Let_def 2
    by (simp add: rs_modes is_celsius_def rs_packet_of_def rs_bits rs_lcd)
  have f: "info (rs_packet_of ?F) AND INFO_HOLD = 0" "digit4 (rs_packet_of ?F) AND DIG4_MAX = 0"
    "indicatrix2 (rs_packet_of ?F) AND IND2_MIN = 0" "info (rs_packet_of ?F) AND INFO_AUTO = 0"
    by (simp_all add: rs_packet_of_def rs_bits)
  have p: "snd (snd (sr_rs9lcd_parse r ?F a)) =
             a\<lparr>mq := SR_MQ_TEMPERATURE, unit := SR_UNIT_FAHRENHEIT,
               data := lcd_to_double r (rs_packet_of ?F) READ_TEMP\<rparr>"
    unfolding sr_rs9lcd_parse_def Let_def m f by simp
  from 1 2 show ?thesis unfolding p by simp
qed

section \<open>Reception: the sample count and the buffer\<close>

lemma to_int_id: "0 \<le> x \<Longrightarrow> x < 2 ^ 31 \<Longrightarrow> to_int x = x"
  by (simp add: to_int_def)

lemma to_int_range: "- (2 ^ 31) \<le> to_int x \<and> to_int x < 2 ^ 31"
proof -
  have "0 \<le> (x + 2 ^ 31) mod 2 ^ 32" "(x + 2 ^ 31) mod 2 ^ 32 < 2 ^ 32"
    by simp_all
  then show ?thesis unfolding to_int_def by simp
qed

lemma to_u64_id: "0 \<le> x \<Longrightarrow> x < 2 ^ 64 \<Longrightarrow> to_u64 x = x"
  by (simp add: to_u64_def)

lemma rx_num_channels_le: "rx_num_channels fr \<le> 4"
proof -
  have "length (filter (\<lambda>i. fr AND i = 0) [0x20, 0x10, 0x08, 0x04]) \<le> length [0x20, 0x10, 0x08, 0x04 :: u32]"
    by (rule length_filter_le)
  then show ?thesis unfolding rx_num_channels_def by simp
qed

lemma length_expand_loop: "length (expand_loop fr smp is j tmp) = length tmp"
  by (induction "is" arbitrary: j tmp) simp_all

declare store_loop.simps [simp del]

lemma memcpy4_inside:
  assumes "0 \<le> offset + i * 4" "i * 4 < 2 ^ 31" "offset + i * 4 + 4 \<le> int (length buf)"
  shows "memcpy4 buf offset i smp =
           (take (nat (offset + i * 4)) buf @ take 4 smp @ drop (nat (offset + i * 4) + 4) buf, False)"
  using assms by (simp add: memcpy4_def Let_def)

lemma splice_take:
  assumes "p + 4 \<le> length buf" "length smp = 4"
  shows "take (p + 4) (take p buf @ smp @ drop (p + 4) buf) = take p buf @ smp"
  using assms by simp

lemma splice_drop:
  assumes "p + 4 \<le> length buf" "length smp = 4" "p + 4 \<le> q"
  shows "drop q (take p buf @ smp @ drop (p + 4) buf) = drop q buf"
proof -
  have "drop q (take p buf @ smp @ drop (p + 4) buf) = drop (q - (p + 4)) (drop (p + 4) buf)"
    using assms by simp
  also have "\<dots> = drop q buf"
    using assms by simp
  finally show ?thesis .
qed

lemma store_loop_content:
  assumes "0 \<le> i" "i \<le> rle + 1" "0 \<le> offset" "offset + 4 * (rle + 1) \<le> int (length buf)"
    "4 * rle < 2 ^ 31" "length smp = 4"
  shows "store_loop buf offset smp i rle fault =
           (take (nat (offset + 4 * i)) buf @ concat (replicate (nat (rle + 1 - i)) smp)
              @ drop (nat (offset + 4 * (rle + 1))) buf, fault)"
  using assms
proof (induction buf offset smp i rle fault rule: store_loop.induct)
  case (1 buf offset smp i rle fault)
  show ?case
  proof (cases "i \<le> rle")
    case False
    with "1.prems" have i: "i = rle + 1" by simp
    show ?thesis
      by (subst store_loop.simps) (simp add: i)
  next
    case True
    let ?p = "nat (offset + 4 * i)"
    let ?buf' = "take ?p buf @ smp @ drop (?p + 4) buf"
    have m: "memcpy4 buf offset i smp = (?buf', False)"
      using memcpy4_inside [of offset i buf smp] True "1.prems"
      by (simp add: mult.commute)
    have len: "length ?buf' = length buf"
      using True "1.prems" by simp
    have p_le: "?p + 4 \<le> length buf"
      using True "1.prems" by simp
    have IH: "store_loop ?buf' offset smp (i + 1) rle (fault \<or> False) =
           (take (nat (offset + 4 * (i + 1))) ?buf' @ concat (replicate (nat (rle + 1 - (i + 1))) smp)
              @ drop (nat (offset + 4 * (rle + 1))) ?buf', fault \<or> False)"
      using "1.IH" [OF True m [symmetric]] True "1.prems" len by simp
    have e1: "nat (offset + 4 * (i + 1)) = ?p + 4"
      using "1.prems" by (simp add: nat_add_distrib distrib_left)
    have t: "take (?p + 4) ?buf' = take ?p buf @ smp"
      using splice_take [OF p_le] "1.prems" by simp
    have ge: "?p + 4 \<le> nat (offset + 4 * (rle + 1))"
      using True "1.prems" by simp
    have d: "drop (nat (offset + 4 * (rle + 1))) ?buf' = drop (nat (offset + 4 * (rle + 1))) buf"
      using splice_drop [OF p_le _ ge] "1.prems" by simp
    have r: "nat (rle + 1 - i) = Suc (nat (rle + 1 - (i + 1)))"
      using True by simp
    show ?thesis
      apply (subst store_loop.simps)
      using True apply (simp only: if_True m prod.case IH e1 t d r)
      apply simp
      done
  qed
qed


lemma sample_as_int_range:
  assumes "uint (smp ! 3) < 128"
  shows "0 \<le> sample_as_int smp \<and> sample_as_int smp < 2 ^ 31"
proof -
  let ?v = "uint (smp ! 0) + 2 ^ 8 * uint (smp ! 1) + 2 ^ 16 * uint (smp ! 2) + 2 ^ 24 * uint (smp ! 3)"
  have b: "0 \<le> uint (smp ! 0)" "0 \<le> uint (smp ! 1)" "0 \<le> uint (smp ! 2)" "0 \<le> uint (smp ! 3)"
    by simp_all
  have u: "uint (smp ! 0) < 256" "uint (smp ! 1) < 256" "uint (smp ! 2) < 256"
    using uint_bounded [of "smp ! 0"] uint_bounded [of "smp ! 1"] uint_bounded [of "smp ! 2"]
    by simp_all
  have "0 \<le> ?v" using b by simp
  moreover have "?v < 2 ^ 31" using u assms by simp
  ultimately show ?thesis
    unfolding sample_as_int_def using to_int_id [of ?v] by simp
qed

lemma uint_and_7f: "uint ((x :: u8) AND 0x7f) < 128"
proof -
  have "x AND 0x7f \<le> 0x7f" by (rule word_and_le1)
  then have "uint (x AND 0x7f) \<le> uint (0x7f :: u8)" by (simp add: word_le_def)
  then show ?thesis by simp
qed

lemma session_mem_fault_False: "\<not> mem_fault ses \<Longrightarrow> ses\<lparr>mem_fault := False\<rparr> = ses"
  by (cases ses) simp

lemma rx_byte_partial:
  assumes core: "rx_core devc ses"
    and ne: "num_bytes devc + 1 \<noteq> rx_num_channels (flag_reg devc)"
  shows "rx_byte h b (rx_num_channels (flag_reg devc)) devc ses =
           (True, devc\<lparr>sample := (sample devc)[nat (num_bytes devc) := b],
                        num_bytes := num_bytes devc + 1\<rparr>, ses)"
  using assms rx_num_channels_le [of "flag_reg devc"]
  by (simp add: rx_byte_def rx_core_def Let_def)

lemma rx_byte_count:
  assumes core: "rx_core devc ses"
    and eq: "num_bytes devc + 1 = rx_num_channels (flag_reg devc)"
    and rle: "flag_reg devc AND FLAG_RLE h \<noteq> 0" "b AND 0x80 \<noteq> 0"
  shows "rx_byte h b (rx_num_channels (flag_reg devc)) devc ses =
           (True, devc\<lparr>sample := (sample devc)[nat (num_bytes devc) := b AND 0x7f],
                        num_bytes := 0,
                        rle_count := sample_as_int ((sample devc)[nat (num_bytes devc) := b AND 0x7f])\<rparr>,
            ses)"
proof -
  have n: "0 \<le> num_bytes devc" "num_bytes devc < 4" "nat (num_bytes devc) < length (sample devc)"
    using core eq rx_num_channels_le [of "flag_reg devc"] by (simp_all add: rx_core_def)
  show ?thesis
    using n eq [symmetric] rle by (simp add: rx_byte_def Let_def)
qed

lemma rx_byte_full_basic:
  assumes nb: "0 \<le> num_bytes devc" "num_bytes devc < 4"
    and eq: "num_bytes devc + 1 = nc"
    and norle: "\<not> (flag_reg devc AND FLAG_RLE h \<noteq> 0 \<and> b AND 0x80 \<noteq> 0)"
    and len: "length (sample devc) = 4"
  shows "rx_byte h b nc devc ses =
           rx_sample nc
             (devc\<lparr>sample := (sample devc)[nat (num_bytes devc) := b],
                    num_bytes := num_bytes devc + 1\<rparr>) ses"
proof -
  have n: "nat (num_bytes devc) < length (sample devc)"
    using nb len by simp
  show ?thesis
    using nb n eq [symmetric] norle by (auto simp add: rx_byte_def Let_def)
qed

lemma rx_byte_full:
  assumes core: "rx_core devc ses"
    and eq: "num_bytes devc + 1 = rx_num_channels (flag_reg devc)"
    and norle: "\<not> (flag_reg devc AND FLAG_RLE h \<noteq> 0 \<and> b AND 0x80 \<noteq> 0)"
  shows "rx_byte h b (rx_num_channels (flag_reg devc)) devc ses =
           rx_sample (rx_num_channels (flag_reg devc))
             (devc\<lparr>sample := (sample devc)[nat (num_bytes devc) := b],
                    num_bytes := num_bytes devc + 1\<rparr>) ses"
proof -
  have n: "0 \<le> num_bytes devc" "num_bytes devc < 4" "length (sample devc) = 4"
    using core eq rx_num_channels_le [of "flag_reg devc"] by (simp_all add: rx_core_def)
  from rx_byte_full_basic [OF n(1,2) eq norle n(3)] show ?thesis .
qed

lemma length_full_sample: "length smp = 4 \<Longrightarrow> length (full_sample nc fr smp) = 4"
  by (simp add: full_sample_def length_expand_loop del: expand_loop.simps)

lemma rx_sample_result:
  assumes L: "0 \<le> limit_samples d" "limit_samples d \<le> 2 ^ 29"
    and s: "0 \<le> num_samples d" "num_samples d < limit_samples d"
    and r: "0 \<le> rle_count d"
    and len: "length (sample d) = 4"
    and buf: "raw_sample_buf d = Some buf0" "int (length buf0) = 4 * limit_samples d"
  shows "\<exists>d'. rx_sample nc d ses = (True, d', ses)
           \<and> num_samples d' = min (limit_samples d) (num_samples d + rle_count d + 1)
           \<and> raw_sample_buf d' =
                Some (take (nat (4 * (limit_samples d - num_samples d'))) buf0
                      @ concat (replicate (nat (num_samples d' - num_samples d))
                                  (full_sample nc (flag_reg d) (sample d)))
                      @ drop (nat (4 * (limit_samples d - num_samples d))) buf0)
           \<and> sample d' = [0, 0, 0, 0] \<and> num_bytes d' = 0 \<and> rle_count d' = 0
           \<and> limit_samples d' = limit_samples d \<and> flag_reg d' = flag_reg d
           \<and> num_transfers d' = num_transfers d \<and> trigger_at d' = trigger_at d
           \<and> cur_samplerate d' = cur_samplerate d"
proof -
  let ?L = "limit_samples d"
  let ?s = "num_samples d"
  let ?r = "rle_count d"
  let ?smp = "full_sample nc (flag_reg d) (sample d)"
  define s' where "s' = min ?L (?s + ?r + 1)"
  define r' where "r' = s' - ?s - 1"
  have s'1: "?s < s'" "s' \<le> ?L" using s r by (simp_all add: s'_def)
  have r'0: "0 \<le> r'" "r' < 2 ^ 29" using s'1 L s by (simp_all add: r'_def)
  have off: "to_int (to_u64 ((?L - s') * 4)) = (?L - s') * 4"
  proof -
    have "0 \<le> (?L - s') * 4" "(?L - s') * 4 < 2 ^ 31" using s'1 L s by simp_all
    then show ?thesis using to_u64_id [of "(?L - s') * 4"] to_int_id [of "(?L - s') * 4"] by simp
  qed
  have lsmp: "length ?smp = 4" using len by (simp add: length_full_sample)
  have st: "store_loop buf0 ((?L - s') * 4) ?smp 0 r' False =
             (take (nat ((?L - s') * 4 + 4 * 0)) buf0 @ concat (replicate (nat (r' + 1 - 0)) ?smp)
                @ drop (nat ((?L - s') * 4 + 4 * (r' + 1))) buf0, False)"
    using s'1 r'0 buf(2) lsmp L s by (intro store_loop_content) (simp_all add: r'_def)
  have st': "store_loop buf0 ((?L - s') * 4) ?smp 0 r' False =
             (take (nat (4 * (?L - s'))) buf0 @ concat (replicate (nat (s' - ?s)) ?smp)
                @ drop (nat (4 * (?L - ?s))) buf0, False)"
  proof -
    have e1: "(?L - s') * 4 + 4 * 0 = 4 * (?L - s')" by simp
    have e2: "(?L - s') * 4 + 4 * (r' + 1) = 4 * (?L - ?s)" unfolding r'_def by simp
    have e3: "r' + 1 - 0 = s' - ?s" unfolding r'_def by simp
    show ?thesis using st unfolding e1 e2 e3 .
  qed
  define d1 where "d1 = d\<lparr>num_samples := ?s + (?r + 1)\<rparr>"
  define d2 where "d2 = (if num_samples d1 > limit_samples d1
                  then d1\<lparr>rle_count := to_int (to_u64 (rle_count d1
                                              - (num_samples d1 - limit_samples d1))),
                             num_samples := limit_samples d1\<rparr>
                  else d1)"
  define d3 where "d3 = (if nc < 4
                  then (let tmp = expand_loop (flag_reg d2) (sample d2) [0, 1, 2, 3] 0
                                    [0, 0, 0, 0]
                        in d2\<lparr>tmp_sample := tmp, sample := tmp\<rparr>)
                  else d2)"
  have d2: "num_samples d2 = s'" "rle_count d2 = r'" "limit_samples d2 = ?L"
    "sample d2 = sample d" "flag_reg d2 = flag_reg d" "raw_sample_buf d2 = Some buf0"
    "num_transfers d2 = num_transfers d" "trigger_at d2 = trigger_at d"
    "cur_samplerate d2 = cur_samplerate d"
  proof -
    show "num_samples d2 = s'" by (simp add: d2_def d1_def s'_def min_def)
    show "rle_count d2 = r'"
    proof (cases "?L < ?s + (?r + 1)")
      case True
      then have "s' = ?L" by (simp add: s'_def)
      then have e: "?r - (?s + (?r + 1) - ?L) = r'" by (simp add: r'_def)
      have "to_u64 r' = r'" using r'0 by (intro to_u64_id) simp_all
      moreover have "to_int r' = r'" using r'0 by (intro to_int_id) simp_all
      ultimately show ?thesis using e True by (simp add: d2_def d1_def)
    next
      case False
      then show ?thesis by (simp add: d2_def d1_def s'_def r'_def)
    qed
  qed (simp_all add: d2_def d1_def buf)
  have d3: "num_samples d3 = s'" "rle_count d3 = r'" "limit_samples d3 = ?L"
    "sample d3 = ?smp" "flag_reg d3 = flag_reg d" "raw_sample_buf d3 = Some buf0"
    "num_transfers d3 = num_transfers d" "trigger_at d3 = trigger_at d"
    "cur_samplerate d3 = cur_samplerate d"
    using d2 by (simp_all add: d3_def full_sample_def Let_def del: expand_loop.simps)
  have "rx_sample nc d ses =
          (let offset = to_int (to_u64 ((limit_samples d3 - num_samples d3) * 4));
               (bufo, fault) =
                 (case raw_sample_buf d3 of
                    None \<Rightarrow> (None, True)
                  | Some buf \<Rightarrow>
                      (case store_loop buf offset (sample d3) 0 (rle_count d3) False of
                         (buf', f) \<Rightarrow> (Some buf', f)));
               d4 = d3\<lparr>raw_sample_buf := bufo, sample := [0, 0, 0, 0],
                       num_bytes := 0, rle_count := 0\<rparr>
           in (True, d4, ses\<lparr>mem_fault := mem_fault ses \<or> fault\<rparr>))"
    unfolding rx_sample_def d3_def d2_def d1_def Let_def ..
  also have "\<dots> = (True, d3\<lparr>raw_sample_buf :=
                        Some (take (nat (4 * (?L - s'))) buf0 @ concat (replicate (nat (s' - ?s)) ?smp)
                                @ drop (nat (4 * (?L - ?s))) buf0),
                      sample := [0, 0, 0, 0], num_bytes := 0, rle_count := 0\<rparr>, ses)"
    using st' off by (simp add: Let_def d3)
  finally show ?thesis
    using d3 by (simp add: s'_def)
qed


lemma rx_core_mem_fault:
  "mem_fault ses' = mem_fault ses \<Longrightarrow> rx_core devc ses' = rx_core devc ses"
  by (simp add: rx_core_def)

lemma length_concat_replicate: "length (concat (replicate k xs)) = k * length xs"
  by (induction k) simp_all

lemma rx_byte_inv:
  assumes core: "rx_core devc ses" and buf: "rx_buf devc"
    and lt: "num_samples devc < limit_samples devc"
  shows "\<exists>devc'. rx_byte h b (rx_num_channels (flag_reg devc)) devc ses = (True, devc', ses)
           \<and> rx_core devc' ses \<and> rx_buf devc'
           \<and> limit_samples devc' = limit_samples devc
           \<and> num_transfers devc' = num_transfers devc"
proof -
  let ?nc = "rx_num_channels (flag_reg devc)"
  let ?n = "nat (num_bytes devc)"
  have c: "0 \<le> limit_samples devc" "limit_samples devc \<le> 2 ^ 29" "0 \<le> num_samples devc"
    "0 \<le> num_transfers devc" "0 \<le> num_bytes devc" "num_bytes devc < ?nc"
    "length (sample devc) = 4" "?nc < 4 \<longrightarrow> sample devc ! 3 = 0"
    "0 \<le> rle_count devc" "\<not> mem_fault ses"
    using core by (simp_all add: rx_core_def)
  have nc4: "?nc \<le> 4" by (rule rx_num_channels_le)
  obtain buf0 where b0: "raw_sample_buf devc = Some buf0" "int (length buf0) = 4 * limit_samples devc"
    using buf by (auto simp: rx_buf_def split: option.splits)
  consider (partial) "num_bytes devc + 1 \<noteq> ?nc"
    | (count) "num_bytes devc + 1 = ?nc" "flag_reg devc AND FLAG_RLE h \<noteq> 0 \<and> b AND 0x80 \<noteq> 0"
    | (full) "num_bytes devc + 1 = ?nc" "\<not> (flag_reg devc AND FLAG_RLE h \<noteq> 0 \<and> b AND 0x80 \<noteq> 0)"
    by blast
  then show ?thesis
  proof cases
    case partial
    let ?d = "devc\<lparr>sample := (sample devc)[?n := b], num_bytes := num_bytes devc + 1\<rparr>"
    have n3: "?nc < 4 \<longrightarrow> ?n \<noteq> 3" using c(5,6) by arith
    have "rx_core ?d ses"
      using c partial n3 core by (auto simp add: rx_core_def)
    moreover have "rx_buf ?d" using b0 by (simp add: rx_buf_def)
    ultimately show ?thesis
      using rx_byte_partial [OF core partial, of h b] by simp
  next
    case count
    let ?smp = "(sample devc)[?n := b AND 0x7f]"
    let ?d = "devc\<lparr>sample := ?smp, num_bytes := 0, rle_count := sample_as_int ?smp\<rparr>"
    have s3: "uint (?smp ! 3) < 128"
    proof (cases "?n = 3")
      case True
      then show ?thesis using c uint_and_7f [of b] by simp
    next
      case False
      then have "?nc < 4" using count(1) c(5) nc4 by arith
      with c False show ?thesis by simp
    qed
    have z3: "?nc < 4 \<longrightarrow> ?smp ! 3 = 0"
    proof
      assume "?nc < 4"
      then have "?n \<noteq> 3" using count(1) c(5) by arith
      with \<open>?nc < 4\<close> c show "?smp ! 3 = 0" by simp
    qed
    have "rx_core ?d ses"
      using c core sample_as_int_range [OF s3] z3 by (simp add: rx_core_def)
    moreover have "rx_buf ?d" using b0 by (simp add: rx_buf_def)
    ultimately show ?thesis
      using rx_byte_count [OF core count(1), of h b] count(2) by simp
  next
    case full
    let ?d1 = "devc\<lparr>sample := (sample devc)[?n := b], num_bytes := num_bytes devc + 1\<rparr>"
    have e: "rx_byte h b ?nc devc ses = rx_sample ?nc ?d1 ses"
      by (rule rx_byte_full [OF core full])
    have p: "0 \<le> limit_samples ?d1" "limit_samples ?d1 \<le> 2 ^ 29" "0 \<le> num_samples ?d1"
      "num_samples ?d1 < limit_samples ?d1" "0 \<le> rle_count ?d1" "length (sample ?d1) = 4"
      "raw_sample_buf ?d1 = Some buf0" "int (length buf0) = 4 * limit_samples ?d1"
      using c lt b0 by simp_all
    from rx_sample_result [OF p, of ?nc ses]
    obtain d' where d':
      "rx_sample ?nc ?d1 ses = (True, d', ses)"
      "num_samples d' = min (limit_samples ?d1) (num_samples ?d1 + rle_count ?d1 + 1)"
      "raw_sample_buf d' =
         Some (take (nat (4 * (limit_samples ?d1 - num_samples d'))) buf0
               @ concat (replicate (nat (num_samples d' - num_samples ?d1))
                           (full_sample ?nc (flag_reg ?d1) (sample ?d1)))
               @ drop (nat (4 * (limit_samples ?d1 - num_samples ?d1))) buf0)"
      "sample d' = [0, 0, 0, 0]" "num_bytes d' = 0" "rle_count d' = 0"
      "limit_samples d' = limit_samples ?d1" "flag_reg d' = flag_reg ?d1"
      "num_transfers d' = num_transfers ?d1"
      by blast
    have ns: "num_samples devc < num_samples d'" "num_samples d' \<le> limit_samples devc"
      using d'(2) c lt by simp_all
    have lf: "length (full_sample ?nc (flag_reg ?d1) (sample ?d1)) = 4"
      using c by (simp add: length_full_sample)
    have "rx_core d' ses"
      using d' c ns by (simp add: rx_core_def)
    moreover have "rx_buf d'"
    proof -
      have "int (nat (4 * (limit_samples devc - num_samples d'))
              + nat (num_samples d' - num_samples devc) * 4
              + (length buf0 - nat (4 * (limit_samples devc - num_samples devc))))
            = 4 * limit_samples devc"
        using ns c b0(2) by simp
      then show ?thesis
        using d'(3,7) lf ns c b0(2)
        by (simp add: rx_buf_def length_concat_replicate)
    qed
    ultimately show ?thesis
      using e d' by simp
  qed
qed


lemma rx_done_facts:
  "\<exists>ses'. rx_done devc ses = (True, devc\<lparr>raw_sample_buf := None\<rparr>, ses')
          \<and> source ses' = None \<and> mem_fault ses' = mem_fault ses"
  by (simp add: rx_done_def Let_def sr_session_send_def)

lemma rx_event_inv:
  assumes core: "rx_core devc ses" and buf: "rx_buf devc"
    and res: "rx_event h e devc ses = (ret, devc', ses')"
  shows "rx_core devc' ses' \<and> (ret \<and> source ses' \<noteq> None \<longrightarrow> rx_buf devc')
           \<and> limit_samples devc' = limit_samples devc
           \<and> num_transfers devc' = num_transfers devc"
proof (cases e)
  case Timeout
  obtain s1 where d: "rx_done devc ses = (True, devc\<lparr>raw_sample_buf := None\<rparr>, s1)"
    "source s1 = None" "mem_fault s1 = mem_fault ses"
    using rx_done_facts [of devc ses] by blast
  have "rx_core (devc\<lparr>raw_sample_buf := None\<rparr>) s1"
    using core d(3) by (simp add: rx_core_def)
  then show ?thesis
    using Timeout d res by (auto simp add: rx_event_def)
next
  case (G_IO_IN bo)
  show ?thesis
  proof (cases bo)
    case None
    then show ?thesis using G_IO_IN core buf res by (auto simp add: rx_event_def)
  next
    case (Some b)
    show ?thesis
    proof (cases "limit_samples devc \<le> num_samples devc")
      case True
      then show ?thesis using G_IO_IN Some core buf res by (auto simp add: rx_event_def)
    next
      case False
      then have lt: "num_samples devc < limit_samples devc" by simp
      from rx_byte_inv [OF core buf lt, of h b]
      show ?thesis using G_IO_IN Some False res by (auto simp add: rx_event_def)
    qed
  qed
qed

lemma receive_data_inv:
  assumes inv: "rx_inv devc ses" and src: "source ses \<noteq> None"
    and res: "receive_data h env e devc ses = (ret, devc', ses')"
  shows "rx_core devc' ses' \<and> (ret \<and> source ses' \<noteq> None \<longrightarrow> rx_buf devc')
           \<and> limit_samples devc' = limit_samples devc
           \<and> num_transfers devc' = num_transfers devc + 1"
proof (cases "num_transfers devc = 0")
  case False
  let ?d = "devc\<lparr>num_transfers := num_transfers devc + 1\<rparr>"
  have core: "rx_core ?d ses" using inv by (simp add: rx_inv_def rx_core_def)
  have buf: "rx_buf ?d"
    using inv src False by (auto simp add: rx_inv_def rx_buf_def split: option.splits)
  have "rx_event h e ?d ses = (ret, devc', ses')"
    using False res by (simp add: receive_data_def Let_def)
  from rx_event_inv [OF core buf this] show ?thesis by simp
next
  case True
  let ?L = "limit_samples devc"
  let ?ses = "ses\<lparr>source := Some 30\<rparr>"
  have c: "0 \<le> ?L" "?L \<le> 2 ^ 29" "rx_core devc ses"
    using inv by (simp_all add: rx_inv_def rx_core_def)
  have sz: "to_u64 (?L * 4) = ?L * 4"
    using c by (intro to_u64_id) simp_all
  show ?thesis
  proof (cases "malloc_ok env (?L * 4)")
    case False
    have "(ret, devc', ses') =
            (False, devc\<lparr>num_transfers := num_transfers devc + 1, raw_sample_buf := None\<rparr>, ?ses)"
      using True False sz res by (simp add: receive_data_def Let_def)
    moreover have "rx_core (devc\<lparr>num_transfers := num_transfers devc + 1, raw_sample_buf := None\<rparr>) ?ses"
      using c(3) by (simp add: rx_core_def)
    ultimately show ?thesis by simp
  next
    case ok: True
    let ?d = "devc\<lparr>num_transfers := num_transfers devc + 1,
                    raw_sample_buf := Some (replicate (nat (?L * 4)) 0x82)\<rparr>"
    have core: "rx_core ?d ?ses" using c(3) by (simp add: rx_core_def)
    have buf: "rx_buf ?d" using c by (simp add: rx_buf_def)
    have "rx_event h e ?d ?ses = (ret, devc', ses')"
      using True ok sz res by (simp add: receive_data_def Let_def)
    from rx_event_inv [OF core buf this] show ?thesis by simp
  qed
qed

lemma session_run_inv:
  assumes "rx_inv devc ses" and "session_run h env evs devc ses = (devc', ses')"
  shows "rx_inv devc' ses' \<and> limit_samples devc' = limit_samples devc"
  using assms
proof (induction evs arbitrary: devc ses)
  case Nil
  then show ?case by simp
next
  case (Cons e evs)
  show ?case
  proof (cases "source ses = None")
    case True
    then show ?thesis using Cons.prems by simp
  next
    case False
    obtain ret d1 s1 where r: "receive_data h env e devc ses = (ret, d1, s1)"
      by (cases "receive_data h env e devc ses") auto
    from receive_data_inv [OF Cons.prems(1) False r]
    have i: "rx_core d1 s1" "ret \<and> source s1 \<noteq> None \<longrightarrow> rx_buf d1"
      "limit_samples d1 = limit_samples devc"
      by simp_all
    show ?thesis
    proof (cases ret)
      case True
      have inv1: "rx_inv d1 s1" using i True by (simp add: rx_inv_def)
      have "session_run h env evs d1 s1 = (devc', ses')"
        using Cons.prems(2) False r True by auto
      from Cons.IH [OF inv1 this] show ?thesis using i(3) by simp
    next
      case ret: False
      have "rx_inv d1 (s1\<lparr>source := None\<rparr>)"
        using i(1) by (simp add: rx_inv_def rx_core_def)
      moreover have "(devc', ses') = (d1, s1\<lparr>source := None\<rparr>)"
        using Cons.prems(2) False r ret by auto
      ultimately show ?thesis using i(3) by simp
    qed
  qed
qed


lemma receive_data_discard:
  assumes full: "limit_samples devc \<le> num_samples devc"
    and res: "receive_data h env (G_IO_IN (Some b)) devc ses = (ret, devc', ses')"
  shows "num_samples devc' = num_samples devc \<and> sample devc' = sample devc
         \<and> num_bytes devc' = num_bytes devc \<and> rle_count devc' = rle_count devc
         \<and> (num_transfers devc \<noteq> 0 \<longrightarrow> raw_sample_buf devc' = raw_sample_buf devc)
         \<and> sent ses' = sent ses \<and> mem_fault ses' = mem_fault ses"
  using assms
  by (auto simp add: receive_data_def rx_event_def Let_def split: if_splits)

lemma receive_data_clamp:
  assumes inv: "rx_inv devc ses" and src: "source ses \<noteq> None"
    and nt: "num_transfers devc \<noteq> 0"
    and buf: "raw_sample_buf devc = Some buf0"
    and lt: "num_samples devc < limit_samples devc"
    and eq: "num_bytes devc + 1 = rx_num_channels (flag_reg devc)"
    and norle: "\<not> (flag_reg devc AND FLAG_RLE h \<noteq> 0 \<and> b AND 0x80 \<noteq> 0)"
    and over: "limit_samples devc < num_samples devc + rle_count devc + 1"
  shows "\<exists>devc'. receive_data h env (G_IO_IN (Some b)) devc ses = (True, devc', ses)
           \<and> num_samples devc' = limit_samples devc
           \<and> raw_sample_buf devc' =
                Some (concat (replicate (nat (limit_samples devc - num_samples devc))
                                (full_sample (rx_num_channels (flag_reg devc)) (flag_reg devc)
                                   ((sample devc)[nat (num_bytes devc) := b])))
                      @ drop (nat (4 * (limit_samples devc - num_samples devc))) buf0)"
proof -
  let ?nc = "rx_num_channels (flag_reg devc)"
  let ?d = "devc\<lparr>num_transfers := num_transfers devc + 1\<rparr>"
  let ?d1 = "?d\<lparr>sample := (sample ?d)[nat (num_bytes ?d) := b], num_bytes := num_bytes ?d + 1\<rparr>"
  have core: "rx_core ?d ses" using inv by (simp add: rx_inv_def rx_core_def)
  have bl: "int (length buf0) = 4 * limit_samples devc"
    using inv src nt buf by (simp add: rx_inv_def rx_buf_def)
  have c: "0 \<le> limit_samples devc" "limit_samples devc \<le> 2 ^ 29" "0 \<le> num_samples devc"
    "0 \<le> rle_count devc" "length (sample devc) = 4" "\<not> mem_fault ses"
    using inv by (simp_all add: rx_inv_def rx_core_def)
  have e1: "receive_data h env (G_IO_IN (Some b)) devc ses = rx_byte h b ?nc ?d ses"
    using nt lt by (simp add: receive_data_def rx_event_def Let_def)
  have e2: "rx_byte h b ?nc ?d ses = rx_sample ?nc ?d1 ses"
    using rx_byte_full [OF core, of h b] eq norle by simp
  have p: "0 \<le> limit_samples ?d1" "limit_samples ?d1 \<le> 2 ^ 29" "0 \<le> num_samples ?d1"
    "num_samples ?d1 < limit_samples ?d1" "0 \<le> rle_count ?d1" "length (sample ?d1) = 4"
    "raw_sample_buf ?d1 = Some buf0" "int (length buf0) = 4 * limit_samples ?d1"
    using c lt buf bl by simp_all
  from rx_sample_result [OF p, of ?nc ses]
  obtain d' where d':
    "rx_sample ?nc ?d1 ses = (True, d', ses)"
    "num_samples d' = min (limit_samples ?d1) (num_samples ?d1 + rle_count ?d1 + 1)"
    "raw_sample_buf d' =
       Some (take (nat (4 * (limit_samples ?d1 - num_samples d'))) buf0
             @ concat (replicate (nat (num_samples d' - num_samples ?d1))
                         (full_sample ?nc (flag_reg ?d1) (sample ?d1)))
             @ drop (nat (4 * (limit_samples ?d1 - num_samples ?d1))) buf0)"
    by blast
  have n: "num_samples d' = limit_samples devc" using d'(2) over by simp
  show ?thesis
    using e1 e2 d'(1) d'(3) n by simp
qed

text \<open>
  Inside the invariant the reception keeps to the limit. From a state that satisfies
  \<open>rx_inv\<close>, whatever events follow, the sample count never exceeds the limit and no
  store leaves the sample buffer. A byte that arrives when the count has reached the limit
  changes neither the count, nor the sample being assembled, nor the buffer. When a full sample arrives whose \<open>rle_count + 1\<close> copies would pass the limit,
  the count becomes the limit and exactly the remaining \<open>limit_samples - num_samples\<close>
  copies are written, at the start of the buffer.
\<close>

lemma reception_within_limit:
  assumes inv: "rx_inv devc ses"
  shows "(\<forall>evs devc' ses'. session_run h env evs devc ses = (devc', ses') \<longrightarrow>
            num_samples devc' \<le> limit_samples devc' \<and> \<not> mem_fault ses')
       \<and> (\<forall>b ret devc' ses'.
            limit_samples devc \<le> num_samples devc
            \<and> receive_data h env (G_IO_IN (Some b)) devc ses = (ret, devc', ses') \<longrightarrow>
              num_samples devc' = num_samples devc \<and> sample devc' = sample devc
              \<and> num_bytes devc' = num_bytes devc \<and> rle_count devc' = rle_count devc
              \<and> (num_transfers devc \<noteq> 0 \<longrightarrow> raw_sample_buf devc' = raw_sample_buf devc)
              \<and> sent ses' = sent ses \<and> mem_fault ses' = mem_fault ses)
       \<and> (\<forall>b buf0.
            source ses \<noteq> None \<and> num_transfers devc \<noteq> 0 \<and> raw_sample_buf devc = Some buf0
            \<and> num_samples devc < limit_samples devc
            \<and> num_bytes devc + 1 = rx_num_channels (flag_reg devc)
            \<and> \<not> (flag_reg devc AND FLAG_RLE h \<noteq> 0 \<and> b AND 0x80 \<noteq> 0)
            \<and> limit_samples devc < num_samples devc + rle_count devc + 1 \<longrightarrow>
              (\<exists>devc'. receive_data h env (G_IO_IN (Some b)) devc ses = (True, devc', ses)
                 \<and> num_samples devc' = limit_samples devc
                 \<and> raw_sample_buf devc' =
                      Some (concat (replicate (nat (limit_samples devc - num_samples devc))
                                      (full_sample (rx_num_channels (flag_reg devc)) (flag_reg devc)
                                         ((sample devc)[nat (num_bytes devc) := b])))
                            @ drop (nat (4 * (limit_samples devc - num_samples devc))) buf0)))"
proof (intro conjI allI impI)
  fix evs :: "io_event list" and devc' :: dev_context and ses' :: session
  assume "session_run h env evs devc ses = (devc', ses')"
  from session_run_inv [OF inv this]
  show "num_samples devc' \<le> limit_samples devc'" and "\<not> mem_fault ses'"
    by (simp_all add: rx_inv_def rx_core_def)
next
  fix b :: u8 and ret :: bool and devc' :: dev_context and ses' :: session
  assume a: "limit_samples devc \<le> num_samples devc
            \<and> receive_data h env (G_IO_IN (Some b)) devc ses = (ret, devc', ses')"
  from receive_data_discard [of devc h env b ses ret devc' ses'] a
  show "num_samples devc' = num_samples devc" "sample devc' = sample devc"
    "num_bytes devc' = num_bytes devc" "rle_count devc' = rle_count devc"
    "sent ses' = sent ses" "mem_fault ses' = mem_fault ses"
    by simp_all
  assume "num_transfers devc \<noteq> 0"
  with receive_data_discard [of devc h env b ses ret devc' ses'] a
  show "raw_sample_buf devc' = raw_sample_buf devc" by simp
next
  fix b :: u8 and buf0 :: "u8 list"
  assume a: "source ses \<noteq> None \<and> num_transfers devc \<noteq> 0 \<and> raw_sample_buf devc = Some buf0
            \<and> num_samples devc < limit_samples devc
            \<and> num_bytes devc + 1 = rx_num_channels (flag_reg devc)
            \<and> \<not> (flag_reg devc AND FLAG_RLE h \<noteq> 0 \<and> b AND 0x80 \<noteq> 0)
            \<and> limit_samples devc < num_samples devc + rle_count devc + 1"
  then show "\<exists>devc'. receive_data h env (G_IO_IN (Some b)) devc ses = (True, devc', ses)
                 \<and> num_samples devc' = limit_samples devc
                 \<and> raw_sample_buf devc' =
                      Some (concat (replicate (nat (limit_samples devc - num_samples devc))
                                      (full_sample (rx_num_channels (flag_reg devc)) (flag_reg devc)
                                         ((sample devc)[nat (num_bytes devc) := b])))
                            @ drop (nat (4 * (limit_samples devc - num_samples devc))) buf0)"
    using receive_data_clamp [OF inv, of buf0 h b env] by blast
qed

text \<open>
  A device with run-length encoding on and a limit of four samples receives the repeat
  count 5, the sample \<open>0x11\<close> and a further byte \<open>0x12\<close>: the six copies are cut to four,
  which fill the buffer, and the further byte is dropped.
\<close>

lemma reception_within_limit_example:
  "rx_inv (fst (started 0 4 True)) (snd (started 0 4 True))
   \<and> num_samples (fst (after (started 0 4 True) (bytes_in [0x85, 0x11, 0x12])))
        \<le> limit_samples (fst (after (started 0 4 True) (bytes_in [0x85, 0x11, 0x12])))
   \<and> \<not> mem_fault (snd (after (started 0 4 True) (bytes_in [0x85, 0x11, 0x12])))
   \<and> limit_samples (fst (after (started 0 4 True) (bytes_in [0x85, 0x11])))
        \<le> num_samples (fst (after (started 0 4 True) (bytes_in [0x85, 0x11])))
   \<and> num_samples (fst (after (started 0 4 True) (bytes_in [0x85, 0x11, 0x12])))
        = num_samples (fst (after (started 0 4 True) (bytes_in [0x85, 0x11])))
   \<and> raw_sample_buf (fst (after (started 0 4 True) (bytes_in [0x85, 0x11, 0x12])))
        = raw_sample_buf (fst (after (started 0 4 True) (bytes_in [0x85, 0x11])))
   \<and> rle_count (fst (after (started 0 4 True) (bytes_in [0x85]))) = 5
   \<and> num_samples (fst (after (started 0 4 True) (bytes_in [0x85]))) = 0
   \<and> (\<exists>devc'. receive_data ols_h_example ols_env_example (G_IO_IN (Some 0x11))
                  (fst (after (started 0 4 True) (bytes_in [0x85])))
                  (snd (after (started 0 4 True) (bytes_in [0x85])))
                = (True, devc', snd (after (started 0 4 True) (bytes_in [0x85])))
          \<and> num_samples devc' = 4
          \<and> raw_sample_buf devc'
              = Some [0x11, 0, 0, 0, 0x11, 0, 0, 0, 0x11, 0, 0, 0, 0x11, 0, 0, 0])"
proof -
  let ?h = ols_h_example
  let ?env = ols_env_example
  let ?A = "started 0 4 True"
  let ?B = "after ?A (bytes_in [0x85, 0x11])"
  let ?C = "after ?A (bytes_in [0x85])"
  let ?E = "after ?A (bytes_in [0x85, 0x11, 0x12])"
  have invA: "rx_inv (fst ?A) (snd ?A)" by code_simp
  have invB: "rx_inv (fst ?B) (snd ?B)" by code_simp
  have invC: "rx_inv (fst ?C) (snd ?C)" by code_simp
  \<comment> \<open>any run\<close>
  have runE: "session_run ?h ?env (bytes_in [0x85, 0x11, 0x12]) (fst ?A) (snd ?A) = (fst ?E, snd ?E)"
    by (simp add: after_def)
  from reception_within_limit [OF invA, of ?h ?env] runE
  have p1: "num_samples (fst ?E) \<le> limit_samples (fst ?E)" "\<not> mem_fault (snd ?E)"
    by blast+
  \<comment> \<open>a byte at the limit\<close>
  have fullB: "limit_samples (fst ?B) \<le> num_samples (fst ?B)" by code_simp
  have ntB: "num_transfers (fst ?B) \<noteq> 0" by code_simp
  have stepB: "receive_data ?h ?env (G_IO_IN (Some 0x12)) (fst ?B) (snd ?B) = (True, fst ?E, snd ?E)"
    by code_simp
  from reception_within_limit [OF invB, of ?h ?env] fullB stepB ntB
  have p2: "num_samples (fst ?E) = num_samples (fst ?B)"
    "raw_sample_buf (fst ?E) = raw_sample_buf (fst ?B)"
    by blast+
  \<comment> \<open>a repetition that passes the limit\<close>
  have hC: "source (snd ?C) \<noteq> None" "num_transfers (fst ?C) \<noteq> 0"
    "raw_sample_buf (fst ?C) = Some (replicate 16 0x82)"
    "num_samples (fst ?C) < limit_samples (fst ?C)"
    "num_bytes (fst ?C) + 1 = rx_num_channels (flag_reg (fst ?C))"
    "\<not> (flag_reg (fst ?C) AND FLAG_RLE ?h \<noteq> 0 \<and> (0x11 :: u8) AND 0x80 \<noteq> 0)"
    "limit_samples (fst ?C) < num_samples (fst ?C) + rle_count (fst ?C) + 1"
    by code_simp+
  have vC: "rle_count (fst ?C) = 5" "num_samples (fst ?C) = 0" "limit_samples (fst ?C) = 4"
    by code_simp+
  have bufC: "concat (replicate (nat (limit_samples (fst ?C) - num_samples (fst ?C)))
                (full_sample (rx_num_channels (flag_reg (fst ?C))) (flag_reg (fst ?C))
                   ((sample (fst ?C))[nat (num_bytes (fst ?C)) := 0x11])))
              @ drop (nat (4 * (limit_samples (fst ?C) - num_samples (fst ?C)))) (replicate 16 0x82)
            = [0x11, 0, 0, 0, 0x11, 0, 0, 0, 0x11, 0, 0, 0, 0x11, 0, 0, 0 :: u8]"
    by code_simp
  from reception_within_limit [OF invC, of ?h ?env] hC
  have "\<exists>devc'. receive_data ?h ?env (G_IO_IN (Some 0x11)) (fst ?C) (snd ?C) = (True, devc', snd ?C)
          \<and> num_samples devc' = limit_samples (fst ?C)
          \<and> raw_sample_buf devc' =
               Some (concat (replicate (nat (limit_samples (fst ?C) - num_samples (fst ?C)))
                        (full_sample (rx_num_channels (flag_reg (fst ?C))) (flag_reg (fst ?C))
                           ((sample (fst ?C))[nat (num_bytes (fst ?C)) := 0x11])))
                     @ drop (nat (4 * (limit_samples (fst ?C) - num_samples (fst ?C)))) (replicate 16 0x82))"
    by blast
  then have "\<exists>devc'. receive_data ?h ?env (G_IO_IN (Some 0x11)) (fst ?C) (snd ?C) = (True, devc', snd ?C)
          \<and> num_samples devc' = limit_samples (fst ?C)
          \<and> raw_sample_buf devc' = Some [0x11, 0, 0, 0, 0x11, 0, 0, 0, 0x11, 0, 0, 0, 0x11, 0, 0, 0]"
    unfolding bufC .
  then have p3: "\<exists>devc'. receive_data ?h ?env (G_IO_IN (Some 0x11)) (fst ?C) (snd ?C) = (True, devc', snd ?C)
          \<and> num_samples devc' = 4
          \<and> raw_sample_buf devc' = Some [0x11, 0, 0, 0, 0x11, 0, 0, 0, 0x11, 0, 0, 0, 0x11, 0, 0, 0]"
    unfolding vC(3) .
  from invA p1 fullB p2 vC(1,2) p3 show ?thesis by blast
qed

subsection \<open>Outside the invariant\<close>

text \<open>
  A limit of \<open>2 ^ 29 + 1\<close> samples passes \<open>hw_dev_config_set\<close>. The byte offset of the
  first sample is then \<open>2 ^ 31\<close>, which the \<open>int offset\<close> holds as \<open>- 2 ^ 31\<close>: the
  store of the first sample is in front of the buffer, whatever the buffer.
\<close>

lemma offset_wraps:
  assumes "limit_samples devc = 2 ^ 29 + 1" "num_samples devc = 0" "rle_count devc = 0"
    "raw_sample_buf devc = Some buf"
  shows "mem_fault (snd (snd (rx_sample nc devc ses)))"
  using assms
  by (simp add: rx_sample_def Let_def to_int_def to_u64_def store_loop.simps [of _ _ _ 0]
      store_loop.simps [of _ _ _ 1] memcpy4_def split: prod.splits)

text \<open>
  C7, on a second acquisition. A device with group 0 enabled, a limit of four samples and
  run-length encoding off runs an acquisition in which the byte \<open>0x11\<close> arrives before the
  timeout. The port is opened again, the limit is set to four again, and the start
  returns \<open>SR_OK\<close>. It has left the counters as the first run left them:
  \<open>num_transfers\<close> is 2, so \<open>receive_data\<close> allocates no buffer, and the buffer of the
  first run has been freed. No store has gone astray so far. The byte \<open>0x22\<close> arrives and
  is a full sample: its store goes where no buffer is.

  When the first run has taken the eight samples \<open>A0\<close> to \<open>A7\<close> of a limit of eight and
  the limit is then set to four, the second start returns \<open>SR_OK\<close> as well, and after the
  byte \<open>0xB0\<close> of the second run \<open>num_samples\<close> is 8 with \<open>limit_samples\<close> 4.
\<close>

theorem C7_second_acquisition_overruns:
  "fst (second_start (first_run 0 4 False [0x11]) 4) = SR_OK
   \<and> num_transfers (fst (snd (second_start (first_run 0 4 False [0x11]) 4))) = 2
   \<and> raw_sample_buf (fst (snd (second_start (first_run 0 4 False [0x11]) 4))) = None
   \<and> \<not> mem_fault (snd (snd (second_start (first_run 0 4 False [0x11]) 4)))
   \<and> mem_fault (snd (after (snd (second_start (first_run 0 4 False [0x11]) 4)) (bytes_in [0x22])))
   \<and> fst (second_start (first_run 0 8 False [0xA0, 0xA1, 0xA2, 0xA3, 0xA4, 0xA5, 0xA6, 0xA7]) 4)
       = SR_OK
   \<and> limit_samples (fst (after (snd (second_start
        (first_run 0 8 False [0xA0, 0xA1, 0xA2, 0xA3, 0xA4, 0xA5, 0xA6, 0xA7]) 4))
        (bytes_in [0xB0]))) = 4
   \<and> num_samples (fst (after (snd (second_start
        (first_run 0 8 False [0xA0, 0xA1, 0xA2, 0xA3, 0xA4, 0xA5, 0xA6, 0xA7]) 4))
        (bytes_in [0xB0]))) = 8"
  by code_simp

section \<open>Configuration\<close>

lemma to_u32_id: "0 \<le> x \<Longrightarrow> x < 2 ^ 32 \<Longrightarrow> to_u32 x = x"
  by (simp add: to_u32_def)

lemmas sr_di_defs =
  SR_DI_HWOPTS_def SR_DI_HWCAPS_def SR_DI_NUM_PROBES_def SR_DI_PROBE_NAMES_def
  SR_DI_SAMPLERATES_def SR_DI_TRIGGER_TYPES_def SR_DI_CUR_SAMPLERATE_def

lemmas sr_hwcap_defs =
  SR_HWCAP_SAMPLERATE_def SR_HWCAP_CAPTURE_RATIO_def SR_HWCAP_PATTERN_MODE_def
  SR_HWCAP_RLE_def SR_HWCAP_LIMIT_MSEC_def SR_HWCAP_LIMIT_SAMPLES_def

text \<open>
  C2. A requested rate \<open>r\<close> with \<open>0 < r \<le> CLOCK_RATE\<close> that \<open>set_samplerate\<close> does not
  reject (at most the device's maximum when the device reported one, inside the driver's
  range of 10 Hz to 200 MHz otherwise) gives \<open>SR_OK\<close>, the divider
  \<open>CLOCK_RATE div r - 1\<close> and the rate \<open>CLOCK_RATE div (CLOCK_RATE div r)\<close>, which
  \<open>hw_info_get\<close> then returns for \<open>SR_DI_CUR_SAMPLERATE\<close>. \<open>CLOCK_RATE\<close> is an
  \<open>int\<close> constant.
\<close>

theorem C2_samplerate_divider:
  assumes r0: "0 < r" and rC: "r \<le> CLOCK_RATE h" and C: "CLOCK_RATE h < 2 ^ 31"
    and acc1: "max_samplerate (priv sdi) \<noteq> 0 \<longrightarrow> r \<le> max_samplerate (priv sdi)"
    and acc2: "max_samplerate (priv sdi) = 0 \<longrightarrow> samplerates_low \<le> r \<and> r \<le> samplerates_high"
  shows "\<exists>sdi'. set_samplerate h sdi r = Some (SR_OK, sdi')
           \<and> cur_samplerate_divider (priv sdi') = CLOCK_RATE h div r - 1
           \<and> cur_samplerate (priv sdi') = CLOCK_RATE h div (CLOCK_RATE h div r)
           \<and> hw_info_get SR_DI_CUR_SAMPLERATE (Some sdi')
               = (SR_OK, Some (Cur_samplerate (CLOCK_RATE h div (CLOCK_RATE h div r))))"
proof -
  let ?C = "CLOCK_RATE h"
  let ?q = "?C div r"
  have q1: "1 \<le> ?q"
    using r0 rC pos_imp_zdiv_pos_iff [of r ?C] by linarith
  have qC: "?q \<le> ?C"
    using r0 rC zdiv_mono2 [of ?C 1 r] by simp
  have d: "to_u32 (?q - 1) = ?q - 1"
    using q1 qC C by (intro to_u32_id) auto
  have d1: "to_u32 (?q - 1 + 1) = ?q"
    using q1 qC C to_u32_id [of ?q] by simp
  let ?devc = "(priv sdi)\<lparr>flag_reg := flag_reg (priv sdi) AND NOT (FLAG_DEMUX h),
                    cur_samplerate_divider := to_u32 (?q - 1)\<rparr>"
  have nd: "flag_reg ?devc AND FLAG_DEMUX h = 0"
    by (simp add: and.assoc)
  have s: "set_samplerate h sdi r = samplerate_from_divider h sdi ?devc"
    using r0 rC acc1 acc2 by (auto simp add: set_samplerate_def Let_def)
  have f: "samplerate_from_divider h sdi ?devc =
            Some (SR_OK, sdi\<lparr>priv := ?devc\<lparr>cur_samplerate := ?C div ?q\<rparr>\<rparr>)"
    unfolding samplerate_from_divider_def Let_def using nd d d1 q1 by simp
  show ?thesis
    unfolding s f using d by (simp add: hw_info_get_def sr_di_defs)
qed

text \<open>
  On the example device a request for 3 MHz gives the divider 32 and the rate 3030303 Hz.
\<close>

theorem C2_samplerate_divider_witness:
  "(0 :: int) < 3000000 \<and> 3000000 \<le> CLOCK_RATE ols_h_example
   \<and> CLOCK_RATE ols_h_example < 2 ^ 31
   \<and> max_samplerate (priv (sdi_example 0)) = 0
   \<and> samplerates_low \<le> 3000000 \<and> 3000000 \<le> samplerates_high
   \<and> (\<exists>sdi'. set_samplerate ols_h_example (sdi_example 0) 3000000 = Some (SR_OK, sdi')
         \<and> cur_samplerate_divider (priv sdi') = 32
         \<and> cur_samplerate (priv sdi') = 3030303
         \<and> hw_info_get SR_DI_CUR_SAMPLERATE (Some sdi') = (SR_OK, Some (Cur_samplerate 3030303)))"
proof -
  have h: "(0 :: int) < 3000000" "3000000 \<le> CLOCK_RATE ols_h_example"
    "CLOCK_RATE ols_h_example < 2 ^ 31" "max_samplerate (priv (sdi_example 0)) = 0"
    "samplerates_low \<le> 3000000" "3000000 \<le> samplerates_high"
    by (simp_all add: ols_h_example_def sdi_example_def ols_dev_new_def samplerates_low_def
        samplerates_high_def)
  have v: "CLOCK_RATE ols_h_example div 3000000 - 1 = 32"
    "CLOCK_RATE ols_h_example div (CLOCK_RATE ols_h_example div 3000000) = 3030303"
    by (simp_all add: ols_h_example_def)
  from C2_samplerate_divider [of 3000000 ols_h_example "sdi_example 0"] h
  have "\<exists>sdi'. set_samplerate ols_h_example (sdi_example 0) 3000000 = Some (SR_OK, sdi')
         \<and> cur_samplerate_divider (priv sdi') = CLOCK_RATE ols_h_example div 3000000 - 1
         \<and> cur_samplerate (priv sdi')
             = CLOCK_RATE ols_h_example div (CLOCK_RATE ols_h_example div 3000000)
         \<and> hw_info_get SR_DI_CUR_SAMPLERATE (Some sdi')
             = (SR_OK, Some (Cur_samplerate
                  (CLOCK_RATE ols_h_example div (CLOCK_RATE ols_h_example div 3000000))))"
    by simp
  then have "\<exists>sdi'. set_samplerate ols_h_example (sdi_example 0) 3000000 = Some (SR_OK, sdi')
         \<and> cur_samplerate_divider (priv sdi') = 32
         \<and> cur_samplerate (priv sdi') = 3030303
         \<and> hw_info_get SR_DI_CUR_SAMPLERATE (Some sdi') = (SR_OK, Some (Cur_samplerate 3030303))"
    unfolding v .
  with h show ?thesis by blast
qed

text \<open>
  The capture ratio is tested as the \<open>int\<close> it is stored in: what decides is the passed
  64-bit value narrowed to 32 bits.
\<close>

lemma capture_ratio_tested_narrowed:
  assumes "status sdi = SR_ST_ACTIVE"
  shows "hw_dev_config_set h sdi SR_HWCAP_CAPTURE_RATIO (U64_at v) =
           (if to_int v < 0 \<or> 100 < to_int v
            then Some (SR_ERR, sdi\<lparr>priv := (priv sdi)\<lparr>capture_ratio := 0\<rparr>\<rparr>)
            else Some (SR_OK, sdi\<lparr>priv := (priv sdi)\<lparr>capture_ratio := to_int v\<rparr>\<rparr>))"
  using assms
  by (simp add: hw_dev_config_set_def Let_def sr_hwcap_defs)

text \<open>
  For the values that fit an \<open>int\<close> the range test is the one on the value itself: above
  100 the answer is \<open>SR_ERR\<close> with a stored ratio of 0, up to 100 it is \<open>SR_OK\<close> with the
  value stored.
\<close>

lemma capture_ratio_range_below_2_31:
  assumes "status sdi = SR_ST_ACTIVE" and "0 \<le> v" and "v < 2 ^ 31"
  shows "hw_dev_config_set h sdi SR_HWCAP_CAPTURE_RATIO (U64_at v) =
           (if 100 < v
            then Some (SR_ERR, sdi\<lparr>priv := (priv sdi)\<lparr>capture_ratio := 0\<rparr>\<rparr>)
            else Some (SR_OK, sdi\<lparr>priv := (priv sdi)\<lparr>capture_ratio := v\<rparr>\<rparr>))"
  using capture_ratio_tested_narrowed [OF assms(1), of h v] to_int_id [OF assms(2,3)] assms(2)
  by simp

text \<open>
  C8, at the value \<open>2 ^ 32 + 50 = 4294967346\<close>, which is outside 0..100: the device is
  active, the call returns \<open>SR_OK\<close> and the stored capture ratio is 50, where the
  specification has \<open>SR_ERR\<close> and a stored ratio of 0. The store into the \<open>int\<close> field comes before the
  range test, which so sees 50; the case for the sample limit, next to it, tests the 64-bit
  value before it stores it.
\<close>

theorem C8_capture_ratio_wraps:
  "status (sdi_example 0) = SR_ST_ACTIVE
   \<and> (100 :: int) < 4294967346
   \<and> hw_dev_config_set ols_h_example (sdi_example 0) SR_HWCAP_CAPTURE_RATIO (U64_at 4294967346)
       = Some (SR_OK, (sdi_example 0)\<lparr>priv := (priv (sdi_example 0))\<lparr>capture_ratio := 50\<rparr>\<rparr>)"
  by (simp add: hw_dev_config_set_def Let_def sr_hwcap_defs sdi_example_def to_int_def)

text \<open>
  C10. On a device whose status is not \<open>SR_ST_ACTIVE\<close>, \<open>hw_dev_config_set\<close> returns
  \<open>SR_ERR\<close> for every capability and value, and the device instance, with its context,
  is as before.
\<close>

theorem C10_inactive_device_rejected:
  assumes "status sdi \<noteq> SR_ST_ACTIVE"
  shows "hw_dev_config_set h sdi hwcap val = Some (SR_ERR, sdi)"
  using assms by (simp add: hw_dev_config_set_def Let_def)

theorem C10_inactive_device_rejected_witness:
  "status ((sdi_example 0)\<lparr>status := SR_ST_INACTIVE\<rparr>) \<noteq> SR_ST_ACTIVE
   \<and> hw_dev_config_set ols_h_example ((sdi_example 0)\<lparr>status := SR_ST_INACTIVE\<rparr>)
        SR_HWCAP_SAMPLERATE (U64_at 1000000)
       = Some (SR_ERR, (sdi_example 0)\<lparr>status := SR_ST_INACTIVE\<rparr>)"
proof -
  have a: "status ((sdi_example 0)\<lparr>status := SR_ST_INACTIVE\<rparr>) \<noteq> SR_ST_ACTIVE" by simp
  from C10_inactive_device_rejected [OF a] a show ?thesis by simp
qed

section \<open>A capture with one channel group and no trigger\<close>


















text \<open>
  The start leaves the counters of the reception, the sample array, the limit and the
  buffer as it finds them: it resets \<open>rle_count\<close> and nothing else of the reception.
\<close>

lemma rx_part_simps [simp]:
  "rx_part (devc\<lparr>probe_mask := a\<rparr>) = rx_part devc"
  "rx_part (devc\<lparr>trigger_mask := b\<rparr>) = rx_part devc"
  "rx_part (devc\<lparr>trigger_value := c\<rparr>) = rx_part devc"
  "rx_part (devc\<lparr>num_stages := d\<rparr>) = rx_part devc"
  "rx_part (devc\<lparr>trigger_at := e\<rparr>) = rx_part devc"
  "rx_part (devc\<lparr>flag_reg := f\<rparr>) = rx_part devc"
  "rx_part (devc\<lparr>rle_count := g\<rparr>) = rx_part devc"
  by (simp_all add: rx_part_def)




lemma start_tail_keeps:
  assumes "start_tail h env sdi devc m ses = (r, sdi', ses')"
  shows "rx_part (priv sdi') = rx_part devc \<and> num_stages (priv sdi') = num_stages devc
         \<and> stack_fault ses' = stack_fault ses"
  using assms
  by (auto simp add: start_tail_def send_commands_def sr_session_send_def Let_def
      split: if_splits prod.splits)



text \<open>
  A successful start has made the store to \<open>trigger_config\<close> outside the array exactly when
  no trigger stage is configured (more than four stages do not pass \<open>configure_probes\<close>).
\<close>

lemma start_stack_fault:
  assumes "hw_dev_acquisition_start h env sdi ses = Some (SR_OK, sdi', ses')"
  shows "stack_fault ses' \<longleftrightarrow>
           stack_fault ses \<or> num_stages (priv sdi') < 1 \<or> 4 < num_stages (priv sdi')"
proof -
  from assms obtain sdi1 devc m ses1 where
    t: "start_tail h env sdi1 devc m ses1 = (SR_OK, sdi', ses')"
    and s: "stack_fault ses1 \<longleftrightarrow> stack_fault ses \<or> num_stages devc < 1 \<or> 4 < num_stages devc"
    by (auto simp add: hw_dev_acquisition_start_def send_commands_def Let_def
        split: if_splits prod.splits)
  from start_tail_keeps [OF t] s show ?thesis by simp
qed







section \<open>The run-length bit of the FPGA mode word\<close>

lemma and_or_zero: "(r :: u16) AND (a OR b) = 0 \<longleftrightarrow> r AND a = 0 \<and> r AND b = 0"
  by (simp add: bit.conj_disj_distrib or_eq_0_iff)

lemma or_and_apart: "(r :: u16) AND a = 0 \<Longrightarrow> (a OR r) AND r = r"
  by (simp add: and.commute bit.conj_disj_distrib)

text \<open>
  C9. Let \<open>RLE_MODE\<close> be a bit pattern of its own and the maximal sample rate not 0. When
  the control transfer succeeds, \<open>dslogic_fpga_configure\<close> builds a configuration, and
  \<open>RLE_MODE\<close> is set in its mode word if and only if continuous mode is off and
  \<open>limit_samples > DS_MAX_LOGIC_DEPTH * ceil(cur_samplerate / DS_MAX_LOGIC_SAMPLERATE)\<close>;
  it is clear otherwise. In particular it is set for a limit of
  \<open>DS_MAX_LOGIC_DEPTH + 1\<close> at the maximal sample rate with continuous mode off.
\<close>

theorem C9_rle_mode_bit:
  assumes apart: "rle_bit_apart h" and rate: "DS_MAX_LOGIC_SAMPLERATE h \<noteq> 0"
  shows "\<exists>cfg ret. dslogic_fpga_configure h True bulk_ok session_trigger devc = (ret, Some cfg)
          \<and> (cfg_mode cfg AND DS_MODE_RLE_MODE h = DS_MODE_RLE_MODE h \<longleftrightarrow>
               \<not> continuous_mode devc
               \<and> ds_limit_samples devc
                  > DS_MAX_LOGIC_DEPTH h
                    * \<lceil>real_of_int (ds_cur_samplerate devc) / real_of_int (DS_MAX_LOGIC_SAMPLERATE h)\<rceil>)
          \<and> (cfg_mode cfg AND DS_MODE_RLE_MODE h = 0 \<longleftrightarrow>
               \<not> (\<not> continuous_mode devc
               \<and> ds_limit_samples devc
                  > DS_MAX_LOGIC_DEPTH h
                    * \<lceil>real_of_int (ds_cur_samplerate devc) / real_of_int (DS_MAX_LOGIC_SAMPLERATE h)\<rceil>))
          \<and> (ds_limit_samples devc = DS_MAX_LOGIC_DEPTH h + 1
               \<and> ds_cur_samplerate devc = DS_MAX_LOGIC_SAMPLERATE h
               \<and> \<not> continuous_mode devc
               \<longrightarrow> cfg_mode cfg AND DS_MODE_RLE_MODE h = DS_MODE_RLE_MODE h)"
proof -
  let ?R = "DS_MODE_RLE_MODE h"
  have a: "?R \<noteq> 0" "?R AND DS_MODE_INT_TEST h = 0" "?R AND DS_MODE_EXT_TEST h = 0"
    "?R AND DS_MODE_LPB_TEST h = 0" "?R AND DS_MODE_HALF_MODE h = 0"
    "?R AND DS_MODE_QUAR_MODE h = 0" "?R AND DS_MODE_STREAM_MODE h = 0"
    "?R AND DS_MODE_CLK_TYPE h = 0" "?R AND DS_MODE_CLK_EDGE h = 0" "?R AND 1 = 0"
    using apart by (simp_all add: rle_bit_apart_def and_or_zero)
  define v1 where "v1 = (if ds_mode devc = DS_OP_INTERNAL_TEST h then DS_MODE_INT_TEST h
                   else if ds_mode devc = DS_OP_EXTERNAL_TEST h then DS_MODE_EXT_TEST h
                   else if ds_mode devc = DS_OP_LOOPBACK_TEST h then DS_MODE_LPB_TEST h
                   else 0)"
  define v2 where "v2 = (if ds_cur_samplerate devc = DS_MAX_LOGIC_SAMPLERATE h * 2
                     then v1 OR DS_MODE_HALF_MODE h
                   else if ds_cur_samplerate devc = DS_MAX_LOGIC_SAMPLERATE h * 4
                     then v1 OR DS_MODE_QUAR_MODE h
                   else v1)"
  define v3 where "v3 = (if continuous_mode devc then v2 OR DS_MODE_STREAM_MODE h else v2)"
  define v4 where "v4 = (if external_clock devc
                   then (let v16 = v3 OR DS_MODE_CLK_TYPE h
                         in if clock_edge devc = DS_EDGE_FALLING h
                            then v16 OR DS_MODE_CLK_EDGE h else v16)
                   else v3)"
  define v5 where "v5 = (if session_trigger then v4 OR 1 else v4)"
  have 1: "?R AND v1 = 0" using a by (simp add: v1_def)
  have 2: "?R AND v2 = 0" using a 1 by (simp add: v2_def and_or_zero)
  have 3: "?R AND v3 = 0" using a 2 by (simp add: v3_def and_or_zero)
  have 4: "?R AND v4 = 0" using a 3 by (simp add: v4_def and_or_zero Let_def)
  have 5: "?R AND v5 = 0" using a 4 by (simp add: v5_def and_or_zero)
  define m where "m = (if rle_wanted h devc then v5 OR ?R else v5)"
  have m_set: "rle_wanted h devc \<Longrightarrow> m AND ?R = ?R"
    using or_and_apart [OF 5] by (simp add: m_def)
  have m_clear: "\<not> rle_wanted h devc \<Longrightarrow> m AND ?R = 0"
    using 5 by (simp add: m_def and.commute)
  have w: "rle_wanted h devc \<longleftrightarrow>
             \<not> continuous_mode devc
             \<and> ds_limit_samples devc
                > DS_MAX_LOGIC_DEPTH h
                  * \<lceil>real_of_int (ds_cur_samplerate devc) / real_of_int (DS_MAX_LOGIC_SAMPLERATE h)\<rceil>"
  proof -
    have "real_of_int (DS_MAX_LOGIC_DEPTH h)
            * real_of_int \<lceil>real_of_int (ds_cur_samplerate devc) / real_of_int (DS_MAX_LOGIC_SAMPLERATE h)\<rceil>
          = real_of_int (DS_MAX_LOGIC_DEPTH h
              * \<lceil>real_of_int (ds_cur_samplerate devc) / real_of_int (DS_MAX_LOGIC_SAMPLERATE h)\<rceil>)"
      by simp
    moreover have "real_of_int (ds_cur_samplerate devc) * 1.0 = real_of_int (ds_cur_samplerate devc)"
      by simp
    ultimately show ?thesis
      using rate unfolding rle_wanted_def by (auto simp only: of_int_less_iff)
  qed
  have c: "\<exists>ret dv. dslogic_fpga_configure h True bulk_ok session_trigger devc =
             (ret, Some \<lparr>cfg_mode = m, cfg_divider = dv, cfg_count = to_u32 (ds_limit_samples devc)\<rparr>)"
    unfolding dslogic_fpga_configure_def dslogic_set_trigger_def m_def v5_def v4_def v3_def v2_def v1_def
    by (simp add: Let_def or.assoc or.commute or.left_commute)
  then obtain ret dv where
    e: "dslogic_fpga_configure h True bulk_ok session_trigger devc =
             (ret, Some \<lparr>cfg_mode = m, cfg_divider = dv, cfg_count = to_u32 (ds_limit_samples devc)\<rparr>)"
    by blast
  have p: "rle_wanted h devc"
    if "ds_limit_samples devc = DS_MAX_LOGIC_DEPTH h + 1"
      "ds_cur_samplerate devc = DS_MAX_LOGIC_SAMPLERATE h" "\<not> continuous_mode devc"
  proof -
    have "real_of_int (ds_cur_samplerate devc) / real_of_int (DS_MAX_LOGIC_SAMPLERATE h) = 1"
      using rate that(2) by simp
    then show ?thesis unfolding w using that(1,3) by simp
  qed
  show ?thesis
    unfolding e using m_set m_clear a(1) w p by (cases "rle_wanted h devc") auto
qed

text \<open>
  With the constants chosen above, a limit of 16000001 samples at 100 MHz and continuous
  mode off: the mode word is \<open>RLE_MODE\<close> alone.
\<close>

theorem C9_rle_mode_bit_witness:
  "rle_bit_apart dslogic_h_example
   \<and> DS_MAX_LOGIC_SAMPLERATE dslogic_h_example \<noteq> 0
   \<and> ds_limit_samples ds_devc_example = DS_MAX_LOGIC_DEPTH dslogic_h_example + 1
   \<and> ds_cur_samplerate ds_devc_example = DS_MAX_LOGIC_SAMPLERATE dslogic_h_example
   \<and> \<not> continuous_mode ds_devc_example
   \<and> (\<exists>cfg ret. dslogic_fpga_configure dslogic_h_example True True False ds_devc_example
                   = (ret, Some cfg)
          \<and> cfg_mode cfg AND DS_MODE_RLE_MODE dslogic_h_example
              = DS_MODE_RLE_MODE dslogic_h_example
          \<and> cfg_mode cfg = 0x08)"
proof -
  have a: "rle_bit_apart dslogic_h_example"
    by (simp add: rle_bit_apart_def dslogic_h_example_def)
  have r: "DS_MAX_LOGIC_SAMPLERATE dslogic_h_example \<noteq> 0"
    by (simp add: dslogic_h_example_def)
  have i: "ds_limit_samples ds_devc_example = DS_MAX_LOGIC_DEPTH dslogic_h_example + 1"
    "ds_cur_samplerate ds_devc_example = DS_MAX_LOGIC_SAMPLERATE dslogic_h_example"
    "\<not> continuous_mode ds_devc_example"
    by (simp_all add: dslogic_h_example_def ds_devc_example_def)
  have w: "rle_wanted dslogic_h_example ds_devc_example"
    by (simp add: rle_wanted_def dslogic_h_example_def ds_devc_example_def)
  have m: "cfg_mode (the (snd (dslogic_fpga_configure dslogic_h_example True True False
                                  ds_devc_example))) = 0x08"
    using w
    by (simp add: dslogic_fpga_configure_def dslogic_set_trigger_def Let_def
        dslogic_h_example_def ds_devc_example_def)
  from C9_rle_mode_bit [OF a r, of True False ds_devc_example] i m
  show ?thesis using a r by auto
qed

end
